theory Spec2Isabelle
  imports Complex_Main
begin

section \<open>Conventions of the embedding\<close>

text \<open>
  The development embeds the yield optimizer of \<^verbatim>\<open>src/services/yield-optimizer.ts\<close>
  and the concentration measure of the risk analyzer.

  \<^item> A JavaScript \<^verbatim>\<open>number\<close> is modelled by a real: arithmetic is exact. Where the
    embedded code can produce \<^verbatim>\<open>NaN\<close> from finite inputs, a number is a \<open>real option\<close>
    and \<open>None\<close> is \<^verbatim>\<open>NaN\<close>: the \<^verbatim>\<open>0/0\<close> of \<^verbatim>\<open>calculateOverallRisk\<close> on an empty risk
    map, and the allocations of the optimizer, whose base allocation need not be a number.
  \<^item> A \<^verbatim>\<open>bigint\<close> is an \<open>int\<close>; its division truncates towards zero.
  \<^item> A \<^verbatim>\<open>Map\<close> is an association list in insertion order whose operations keep
    keys unique, as the ones of the JavaScript \<^verbatim>\<open>Map\<close> do.
\<close>

subsection \<open>JavaScript maps\<close>

definition jsmap_get :: "('k \<times> 'v) list \<Rightarrow> 'k \<Rightarrow> 'v option" where
  "jsmap_get m k = map_of m k"

text \<open>\<^verbatim>\<open>m.set(k, v)\<close>: an existing key keeps its place, a new key goes last.\<close>

fun jsmap_set :: "'k \<Rightarrow> 'v \<Rightarrow> ('k \<times> 'v) list \<Rightarrow> ('k \<times> 'v) list" where
  "jsmap_set k v [] = [(k, v)]"
| "jsmap_set k v ((k', v') # m) =
     (if k' = k then (k, v) # m else (k', v') # jsmap_set k v m)"

definition jsmap_delete :: "'k \<Rightarrow> ('k \<times> 'v) list \<Rightarrow> ('k \<times> 'v) list" where
  "jsmap_delete k m = filter (\<lambda>e. fst e \<noteq> k) m"

definition jsmap_keys :: "('k \<times> 'v) list \<Rightarrow> 'k list" where
  "jsmap_keys m = map fst m"

definition jsmap_values :: "('k \<times> 'v) list \<Rightarrow> 'v list" where
  "jsmap_values m = map snd m"

subsection \<open>Numbers\<close>

text \<open>\<^verbatim>\<open>Math.round\<close> rounds to the nearest integer, a tie towards plus infinity.\<close>

definition math_round :: "real \<Rightarrow> int" where
  "math_round x = \<lfloor>x + 1 / 2\<rfloor>"

text \<open>Division of two \<^verbatim>\<open>bigint\<close>s, for a divisor that is not zero.\<close>

definition bigint_div :: "int \<Rightarrow> int \<Rightarrow> int" where
  "bigint_div a b = sgn a * sgn b * (\<bar>a\<bar> div \<bar>b\<bar>)"

text \<open>\<^verbatim>\<open>v || d\<close> on an optional number: \<^verbatim>\<open>undefined\<close> and \<^verbatim>\<open>0\<close> are falsy.\<close>

definition or_else :: "real option \<Rightarrow> real \<Rightarrow> real" where
  "or_else v d = (case v of None \<Rightarrow> d | Some x \<Rightarrow> if x = 0 then d else x)"

section \<open>Data model\<close>

datatype riskTolerance = Conservative | Moderate | Aggressive

datatype protocolType = Lido | Etherfi | Rocketpool | Morpho

text \<open>
  Fields are named as in \<^verbatim>\<open>types/index.ts\<close>, but for \<^verbatim>\<open>type\<close> (here \<open>protocolType\<close>), the
  \<^verbatim>\<open>riskScore\<close> of a protocol (here \<open>protocolRiskScore\<close>, the strategy has a field of
  that name too), and the \<^verbatim>\<open>id\<close> and \<^verbatim>\<open>gasPrice\<close> of a transaction (\<open>txId\<close>, \<open>txGasPrice\<close>).
  The time stamp of a market snapshot is left out: nothing reads it.
\<close>

record stakingProtocol =
  name :: string
  address :: string
  protocolType :: protocolType
  currentAPR :: real
  exchangeRate :: real
  totalStaked :: int
  protocolRiskScore :: real
  gasEfficiency :: real
  withdrawalDelay :: real
  maxAllocation :: real

record portfolioPosition =
  protocol :: stakingProtocol
  currentAmount :: int
  targetAmount :: int
  currentPercentage :: real
  targetPercentage :: real
  lstTokenBalance :: int
  pendingWithdrawals :: int

text \<open>
  \<^verbatim>\<open>OptimizationStrategy\<close>. \<open>riskScore\<close> is \<open>None\<close> when the code computes \<^verbatim>\<open>NaN\<close> for it. A
  \<open>riskTolerance\<close> outside the three tags takes the \<^verbatim>\<open>default\<close> branch everywhere, which
  is the moderate one, so it is modelled by \<open>Moderate\<close>. The type \<open>'n\<close> is the type of the
  allocations and of the expected APR: \<open>real\<close> in a strategy that the decision gate, the
  planner and the executor are given, \<open>real option\<close> in the strategy that the optimizer
  generates, where an allocation can be \<^verbatim>\<open>NaN\<close>.
\<close>

record 'n strategyOf =
  targetAllocations :: "(string \<times> 'n) list"
  expectedAPR :: 'n
  riskScore :: "real option"
  rebalanceThreshold :: real
  maxGasPrice :: real
  riskTolerance :: riskTolerance

type_synonym optimizationStrategy = "real strategyOf"

type_synonym generatedStrategy = "real option strategyOf"

record marketData =
  gasPrice :: real
  ethPrice :: real
  protocolAPRs :: "(string \<times> real) list"
  protocolRisks :: "(string \<times> real) list"

record movement =
  mv_from :: string
  mv_to :: string
  mv_amount :: int

section \<open>Movement planner\<close>

definition getTotalPortfolioValue :: "(string \<times> portfolioPosition) list \<Rightarrow> int" where
  "getTotalPortfolioValue ps = sum_list (map currentAmount (jsmap_values ps))"

text \<open>
  The first loop of \<^verbatim>\<open>calculateRequiredMovements\<close>: one step per entry of the target
  allocations, on the pair of maps (surpluses, deficits).
\<close>

definition classify_step ::
  "(string \<times> portfolioPosition) list \<Rightarrow> int \<Rightarrow> string \<times> real \<Rightarrow>
   (string \<times> int) list \<times> (string \<times> int) list \<Rightarrow> (string \<times> int) list \<times> (string \<times> int) list" where
  "classify_step ps totalValue e sd =
     (case jsmap_get ps (fst e) of
        None \<Rightarrow> sd
      | Some position \<Rightarrow>
          (let targetAmount = bigint_div (totalValue * math_round (snd e * 100)) 10000;
               difference = targetAmount - currentAmount position
           in if difference > 0 then (fst sd, jsmap_set (fst e) difference (snd sd))
              else if difference < 0 then (jsmap_set (fst e) (- difference) (fst sd), snd sd)
              else sd))"

fun classify ::
  "(string \<times> portfolioPosition) list \<Rightarrow> int \<Rightarrow> (string \<times> real) list \<Rightarrow>
   (string \<times> int) list \<times> (string \<times> int) list \<Rightarrow> (string \<times> int) list \<times> (string \<times> int) list" where
  "classify ps totalValue [] sd = sd"
| "classify ps totalValue (e # es) sd = classify ps totalValue es (classify_step ps totalValue e sd)"

text \<open>
  The inner loop over the deficits, for one surplus. \<open>todo\<close> holds the entries the
  iterator has still to visit; the writes of the body touch the entry being visited only,
  so the iterator sees the entries as they were when the loop started.
\<close>

fun match_deficits ::
  "string \<Rightarrow> int \<Rightarrow> (string \<times> int) list \<Rightarrow> (string \<times> int) list \<Rightarrow> movement list \<Rightarrow>
   (string \<times> int) list \<times> movement list" where
  "match_deficits fromProtocol remainingSurplus [] deficits movements = (deficits, movements)"
| "match_deficits fromProtocol remainingSurplus ((toProtocol, deficitAmount) # todo) deficits movements =
     (if remainingSurplus = 0 then (deficits, movements)
      else
        (let moveAmount = (if remainingSurplus < deficitAmount then remainingSurplus else deficitAmount);
             movements1 = movements @ [\<lparr>mv_from = fromProtocol, mv_to = toProtocol, mv_amount = moveAmount\<rparr>];
             deficits1 = jsmap_set toProtocol (deficitAmount - moveAmount) deficits;
             deficits2 = (if jsmap_get deficits1 toProtocol = Some 0
                          then jsmap_delete toProtocol deficits1 else deficits1)
         in match_deficits fromProtocol (remainingSurplus - moveAmount) todo deficits2 movements1))"

fun match_surpluses ::
  "(string \<times> int) list \<Rightarrow> (string \<times> int) list \<Rightarrow> movement list \<Rightarrow> movement list" where
  "match_surpluses [] deficits movements = movements"
| "match_surpluses ((fromProtocol, surplusAmount) # surpluses) deficits movements =
     (case match_deficits fromProtocol surplusAmount deficits deficits movements of
        (deficits1, movements1) \<Rightarrow> match_surpluses surpluses deficits1 movements1)"

definition calculateRequiredMovements ::
  "(string \<times> portfolioPosition) list \<Rightarrow> optimizationStrategy \<Rightarrow> int \<Rightarrow> movement list" where
  "calculateRequiredMovements ps newStrategy totalValue =
     (case classify ps totalValue (targetAllocations newStrategy) ([], []) of
        (surpluses, deficits) \<Rightarrow> match_surpluses surpluses deficits [])"

section \<open>Allocation optimizer\<close>

text \<open>The loop of \<^verbatim>\<open>optimizeAllocation\<close> that fills \<^verbatim>\<open>riskAdjustedReturns\<close>.\<close>

fun riskAdjust ::
  "(string \<times> real) list \<Rightarrow> (string \<times> real) list \<Rightarrow> (string \<times> real) list \<Rightarrow> (string \<times> real) list" where
  "riskAdjust risks [] riskAdjustedReturns = riskAdjustedReturns"
| "riskAdjust risks ((protocolName, apr) # entries) riskAdjustedReturns =
     (let risk = or_else (jsmap_get risks protocolName) 0;
          riskAdjustedReturn = apr * (1 - risk / 100)
      in riskAdjust risks entries (jsmap_set protocolName riskAdjustedReturn riskAdjustedReturns))"

definition baseAllocations :: "(string \<times> real) list" where
  "baseAllocations = [(''lido'', 30), (''rocketpool'', 25), (''etherfi'', 25), (''morpho'', 20)]"

text \<open>
  The table is an object literal, and \<^verbatim>\<open>baseAllocations[protocolName]\<close> finds the
  properties that every object inherits from \<^verbatim>\<open>Object.prototype\<close> too. Their values are
  functions (an object for \<^verbatim>\<open>__proto__\<close>): truthy, so that \<^verbatim>\<open>|| 15\<close> does not apply, and
  not numbers, so that a product with them is \<^verbatim>\<open>NaN\<close>. The result of the lookup is \<open>None\<close>
  for them.
\<close>

definition objectPrototypeKeys :: "string list" where
  "objectPrototypeKeys =
     [''constructor'', ''hasOwnProperty'', ''isPrototypeOf'', ''propertyIsEnumerable'',
      ''toLocaleString'', ''toString'', ''valueOf'', ''__proto__'',
      ''__defineGetter__'', ''__defineSetter__'', ''__lookupGetter__'', ''__lookupSetter__'']"

definition getBaseAllocation :: "string \<Rightarrow> real option" where
  "getBaseAllocation protocolName =
     (case jsmap_get baseAllocations protocolName of
        Some v \<Rightarrow> Some (or_else (Some v) 15)
      | None \<Rightarrow> if protocolName \<in> set objectPrototypeKeys then None else Some 15)"

fun getRiskMultiplier :: "riskTolerance \<Rightarrow> real \<Rightarrow> real" where
  "getRiskMultiplier Conservative score = max 0.5 (1 - score / 50)"
| "getRiskMultiplier Aggressive score = min 1.5 (1 + score / 100)"
| "getRiskMultiplier Moderate score = max 0.7 (1 - score / 100)"

definition getPerformanceMultiplier :: "real \<Rightarrow> real" where
  "getPerformanceMultiplier return = (let baseline = 7; excess = return - baseline
                                      in 1 + tanh (excess / 5) * 0.3)"

text \<open>
  \<^verbatim>\<open>baseAllocation * riskMultiplier * performanceMultiplier\<close>, the allocation a protocol
  would get if nothing had been allocated before it: \<^verbatim>\<open>NaN\<close> when the base allocation is
  not a number.
\<close>

definition rawAllocation :: "riskTolerance \<Rightarrow> (string \<times> real) list \<Rightarrow> string \<times> real \<Rightarrow> real option" where
  "rawAllocation tolerance risks e =
     map_option
       (\<lambda>baseAllocation. baseAllocation
            * getRiskMultiplier tolerance (or_else (jsmap_get risks (fst e)) 0)
            * getPerformanceMultiplier (snd e))
       (getBaseAllocation (fst e))"

text \<open>\<^verbatim>\<open>Math.min\<close> and the subtraction: \<^verbatim>\<open>NaN\<close> as soon as an argument is.\<close>

definition math_min :: "real option \<Rightarrow> real option \<Rightarrow> real option" where
  "math_min a b = (case a of None \<Rightarrow> None | Some x \<Rightarrow> (case b of None \<Rightarrow> None | Some y \<Rightarrow> Some (min x y)))"

definition number_minus :: "real option \<Rightarrow> real option \<Rightarrow> real option" where
  "number_minus a b = (case a of None \<Rightarrow> None | Some x \<Rightarrow> (case b of None \<Rightarrow> None | Some y \<Rightarrow> Some (x - y)))"

text \<open>The loop of \<^verbatim>\<open>calculateOptimalAllocations\<close> over the sorted protocols.\<close>

fun allocate ::
  "riskTolerance \<Rightarrow> (string \<times> real) list \<Rightarrow> (string \<times> real) list \<Rightarrow> real option \<Rightarrow>
   (string \<times> real option) list \<Rightarrow> (string \<times> real option) list" where
  "allocate tolerance risks [] remainingAllocation allocations = allocations"
| "allocate tolerance risks (e # sortedProtocols) remainingAllocation allocations =
     (let allocation = math_min (rawAllocation tolerance risks e) remainingAllocation
      in allocate tolerance risks sortedProtocols (number_minus remainingAllocation allocation)
           (jsmap_set (fst e) allocation allocations))"

text \<open>
  \<^verbatim>\<open>sort(([,a], [,b]) => b - a)\<close>: descending by the return, stable.
\<close>

definition sortedProtocols :: "(string \<times> real) list \<Rightarrow> (string \<times> real) list" where
  "sortedProtocols riskAdjustedReturns = sort_key (\<lambda>e. - snd e) riskAdjustedReturns"

definition calculateOptimalAllocations ::
  "riskTolerance \<Rightarrow> (string \<times> real) list \<Rightarrow> marketData \<Rightarrow> (string \<times> real option) list" where
  "calculateOptimalAllocations tolerance riskAdjustedReturns md =
     allocate tolerance (protocolRisks md) (sortedProtocols riskAdjustedReturns) (Some 100) []"

text \<open>The weighted sum is \<^verbatim>\<open>NaN\<close> from the first allocation that is \<^verbatim>\<open>NaN\<close> on.\<close>

definition calculateExpectedAPR :: "(string \<times> real option) list \<Rightarrow> (string \<times> real) list \<Rightarrow> real option" where
  "calculateExpectedAPR allocations aprs =
     foldl (\<lambda>weightedAPR e.
              case weightedAPR of
                None \<Rightarrow> None
              | Some w \<Rightarrow> map_option (\<lambda>allocation. w + (allocation / 100) * or_else (jsmap_get aprs (fst e)) 0) (snd e))
           (Some 0) allocations"

definition calculateOverallRisk :: "(string \<times> real) list \<Rightarrow> real option" where
  "calculateOverallRisk risks =
     (if risks = [] then None
      else Some (foldl (\<lambda>totalRisk risk. totalRisk + risk) 0 (jsmap_values risks) / real (length risks)))"

text \<open>\<open>baseThreshold\<close> is \<^verbatim>\<open>Number(process.env.MAX_GAS_PRICE_GWEI) || 50\<close>, a parameter here.\<close>

definition adjustGasThreshold :: "real \<Rightarrow> real \<Rightarrow> real" where
  "adjustGasThreshold baseThreshold currentGasPrice =
     (if currentGasPrice < baseThreshold * 0.5 then baseThreshold * 1.2
      else if currentGasPrice > baseThreshold * 1.5 then baseThreshold * 0.8
      else baseThreshold)"

definition optimizeAllocation :: "real \<Rightarrow> optimizationStrategy \<Rightarrow> marketData \<Rightarrow> generatedStrategy" where
  "optimizeAllocation baseThreshold current md =
     (let riskAdjustedReturns = riskAdjust (protocolRisks md) (protocolAPRs md) [];
          newAllocations = calculateOptimalAllocations (riskTolerance current) riskAdjustedReturns md
      in \<lparr>targetAllocations = newAllocations,
          expectedAPR = calculateExpectedAPR newAllocations (protocolAPRs md),
          riskScore = calculateOverallRisk (protocolRisks md),
          rebalanceThreshold = rebalanceThreshold current,
          maxGasPrice = adjustGasThreshold baseThreshold (gasPrice md),
          riskTolerance = riskTolerance current\<rparr>)"

section \<open>Risk analyzer\<close>

definition calculateConcentrationRisk :: "stakingProtocol list \<Rightarrow> real" where
  "calculateConcentrationRisk protocols =
     (let totalTVL = foldl (\<lambda>sum p. sum + real_of_int (totalStaked p)) 0 protocols
      in if totalTVL = 0 then 0
         else foldl (\<lambda>hhi p. let share = real_of_int (totalStaked p) / totalTVL
                               in hhi + share * share) 0 protocols * 10)"

section \<open>Position store, decision gate and executor\<close>

datatype txStatus = Pending | Executing | Completed | Failed

record rebalanceTransaction =
  txId :: string
  fromProtocol :: string
  toProtocol :: string
  amount :: int
  txGasPrice :: real
  estimatedGas :: int
  status :: txStatus
  txHash :: "string option"
  timestamp :: int

text \<open>
  The settlement layer is outside the program. Every call made to it is recorded, and its
  answer to a call may depend on all the calls made before: the service is a family of
  functions of that history. The identifier and the time stamp of a new transaction
  (\<^verbatim>\<open>Date.now()\<close>, \<^verbatim>\<open>Math.random()\<close>, \<^verbatim>\<open>new Date()\<close>) come from outside as well.
\<close>

datatype call =
    GetGasPrice
  | ExecuteUnstake string int
  | ExecuteStake string int
  | WaitForTransaction string

record environment =
  getGasPrice :: "call list \<Rightarrow> real"
  executeUnstake :: "call list \<Rightarrow> string \<Rightarrow> int \<Rightarrow> string option"
  executeStake :: "call list \<Rightarrow> string \<Rightarrow> int \<Rightarrow> string option"
  waitForTransaction :: "call list \<Rightarrow> string \<Rightarrow> bool"
  newTxId :: "call list \<Rightarrow> string"
  newDate :: "call list \<Rightarrow> int"

text \<open>
  The state of a \<^verbatim>\<open>YieldOptimizer\<close>. Transactions are objects shared between the
  returned array and \<^verbatim>\<open>pendingTransactions\<close>: \<open>transactionObjects\<close> is the store of
  all transaction objects created so far, an object's address is its index, and the
  map holds addresses. \<open>statusWrites\<close> lists, in order, every assignment to the
  \<^verbatim>\<open>status\<close> field of an object (its creation included); \<open>serviceCalls\<close> is the history
  of calls to the settlement layer.
\<close>

record optimizerState =
  currentStrategy :: optimizationStrategy
  positions :: "(string \<times> portfolioPosition) list"
  pendingTransactions :: "(string \<times> nat) list"
  transactionObjects :: "rebalanceTransaction list"
  statusWrites :: "(nat \<times> txStatus) list"
  serviceCalls :: "call list"

subsection \<open>Decision gate\<close>

definition calculateRebalanceNeed :: "(string \<times> portfolioPosition) list \<Rightarrow> optimizationStrategy \<Rightarrow> real" where
  "calculateRebalanceNeed ps newStrategy =
     foldl (\<lambda>totalDifference e.
              let currentPct = or_else (map_option currentPercentage (jsmap_get ps (fst e))) 0
              in totalDifference + \<bar>snd e - currentPct\<bar>) 0 (targetAllocations newStrategy) / 100"

definition checkGasConditions :: "environment \<Rightarrow> optimizerState \<Rightarrow> bool \<times> optimizerState" where
  "checkGasConditions env s =
     (getGasPrice env (serviceCalls s) \<le> maxGasPrice (currentStrategy s),
      s\<lparr>serviceCalls := serviceCalls s @ [GetGasPrice]\<rparr>)"

definition checkRiskThresholds :: "optimizationStrategy \<Rightarrow> optimizationStrategy \<Rightarrow> bool" where
  "checkRiskThresholds current newStrategy =
     (let maxRiskScore = (if riskTolerance current = Conservative then 4
                          else if riskTolerance current = Aggressive then 8 else (6::real))
      in case riskScore newStrategy of None \<Rightarrow> False | Some r \<Rightarrow> r \<le> maxRiskScore)"

definition shouldRebalance :: "environment \<Rightarrow> optimizationStrategy \<Rightarrow> optimizerState \<Rightarrow> bool \<times> optimizerState" where
  "shouldRebalance env newStrategy s =
     (let rebalanceNeeded = calculateRebalanceNeed (positions s) newStrategy;
          (gasConditionsMet, s1) = checkGasConditions env s;
          riskAcceptable = checkRiskThresholds (currentStrategy s1) newStrategy
      in (rebalanceNeeded > rebalanceThreshold (currentStrategy s1) \<and> gasConditionsMet \<and> riskAcceptable, s1))"

subsection \<open>Position updates\<close>

definition updatePositionPercentages :: "(string \<times> portfolioPosition) list \<Rightarrow> (string \<times> portfolioPosition) list" where
  "updatePositionPercentages ps =
     (let totalValue = getTotalPortfolioValue ps
      in if totalValue = 0 then ps
         else map (\<lambda>e. (fst e, (snd e)\<lparr>currentPercentage :=
                      real_of_int (bigint_div (currentAmount (snd e) * 10000) totalValue) / 100\<rparr>)) ps)"

text \<open>
  \<^verbatim>\<open>position.currentAmount += delta\<close> on the object that \<^verbatim>\<open>positions.get(k)\<close> returns,
  when there is one.
\<close>

definition add_to_amount :: "string \<Rightarrow> int \<Rightarrow> (string \<times> portfolioPosition) list \<Rightarrow> (string \<times> portfolioPosition) list" where
  "add_to_amount k delta ps =
     (case jsmap_get ps k of
        None \<Rightarrow> ps
      | Some position \<Rightarrow> jsmap_set k (position\<lparr>currentAmount := currentAmount position + delta\<rparr>) ps)"

definition updatePositionAmounts ::
  "string \<Rightarrow> string \<Rightarrow> int \<Rightarrow> (string \<times> portfolioPosition) list \<Rightarrow> (string \<times> portfolioPosition) list" where
  "updatePositionAmounts fromName toName amt ps =
     updatePositionPercentages (add_to_amount toName amt (add_to_amount fromName (- amt) ps))"

subsection \<open>Executor\<close>

definition set_status :: "nat \<Rightarrow> txStatus \<Rightarrow> optimizerState \<Rightarrow> optimizerState" where
  "set_status a st s =
     s\<lparr>transactionObjects := (transactionObjects s)[a := (transactionObjects s ! a)\<lparr>status := st\<rparr>],
       statusWrites := statusWrites s @ [(a, st)]\<rparr>"

definition set_txHash :: "nat \<Rightarrow> string \<Rightarrow> optimizerState \<Rightarrow> optimizerState" where
  "set_txHash a h s =
     s\<lparr>transactionObjects := (transactionObjects s)[a := (transactionObjects s ! a)\<lparr>txHash := Some h\<rparr>]\<rparr>"

definition call_unstake :: "environment \<Rightarrow> string \<Rightarrow> int \<Rightarrow> optimizerState \<Rightarrow> string option \<times> optimizerState" where
  "call_unstake env p amt s =
     (executeUnstake env (serviceCalls s) p amt, s\<lparr>serviceCalls := serviceCalls s @ [ExecuteUnstake p amt]\<rparr>)"

definition call_stake :: "environment \<Rightarrow> string \<Rightarrow> int \<Rightarrow> optimizerState \<Rightarrow> string option \<times> optimizerState" where
  "call_stake env p amt s =
     (executeStake env (serviceCalls s) p amt, s\<lparr>serviceCalls := serviceCalls s @ [ExecuteStake p amt]\<rparr>)"

definition call_wait :: "environment \<Rightarrow> string \<Rightarrow> optimizerState \<Rightarrow> bool \<times> optimizerState" where
  "call_wait env h s =
     (waitForTransaction env (serviceCalls s) h, s\<lparr>serviceCalls := serviceCalls s @ [WaitForTransaction h]\<rparr>)"

text \<open>\<^verbatim>\<open>!hash\<close> holds of \<^verbatim>\<open>null\<close> and of the empty string.\<close>

definition truthy :: "string option \<Rightarrow> bool" where
  "truthy h = (case h of None \<Rightarrow> False | Some x \<Rightarrow> x \<noteq> [])"

text \<open>
  \<^verbatim>\<open>executeMovement\<close> on the transaction object at address \<open>a\<close>. Each \<^verbatim>\<open>throw\<close> is
  caught by the function's own \<^verbatim>\<open>catch\<close>, which marks the transaction failed.
\<close>

definition executeMovement :: "environment \<Rightarrow> movement \<Rightarrow> nat \<Rightarrow> optimizerState \<Rightarrow> optimizerState" where
  "executeMovement env m a s0 =
     (let s1 = set_status a Executing s0;
          (unstakeTxHash, s2) = call_unstake env (mv_from m) (mv_amount m) s1
      in if \<not> truthy unstakeTxHash then set_status a Failed s2
         else
           (let (unstakeSuccess, s3) = call_wait env (the unstakeTxHash) s2
            in if \<not> unstakeSuccess then set_status a Failed s3
               else
                 (let (stakeTxHash, s4) = call_stake env (mv_to m) (mv_amount m) s3
                  in if \<not> truthy stakeTxHash then set_status a Failed s4
                     else
                       (let s5 = set_txHash a (the stakeTxHash) s4;
                            (stakeSuccess, s6) = call_wait env (the stakeTxHash) s5
                        in if stakeSuccess
                           then (let s7 = set_status a Completed s6
                                 in s7\<lparr>positions := updatePositionAmounts (mv_from m) (mv_to m) (mv_amount m) (positions s7)\<rparr>)
                           else set_status a Failed s6))))"

text \<open>The loop of \<^verbatim>\<open>executeRebalance\<close>; \<open>transactions\<close> is the array of addresses.\<close>

fun executeMovements :: "environment \<Rightarrow> movement list \<Rightarrow> nat list \<Rightarrow> optimizerState \<Rightarrow> nat list \<times> optimizerState" where
  "executeMovements env [] transactions s = (transactions, s)"
| "executeMovements env (m # movements) transactions s =
     (let newId = newTxId env (serviceCalls s);
          price = getGasPrice env (serviceCalls s);
          s1 = s\<lparr>serviceCalls := serviceCalls s @ [GetGasPrice]\<rparr>;
          transaction = \<lparr>txId = newId, fromProtocol = mv_from m, toProtocol = mv_to m,
                          amount = mv_amount m, txGasPrice = price, estimatedGas = 0,
                          status = Pending, txHash = None, timestamp = newDate env (serviceCalls s1)\<rparr>;
          a = length (transactionObjects s1);
          s2 = s1\<lparr>transactionObjects := transactionObjects s1 @ [transaction],
                  statusWrites := statusWrites s1 @ [(a, Pending)]\<rparr>;
          s3 = s2\<lparr>pendingTransactions := jsmap_set newId a (pendingTransactions s2)\<rparr>
      in executeMovements env movements (transactions @ [a]) (executeMovement env m a s3))"

definition executeRebalance ::
  "environment \<Rightarrow> optimizationStrategy \<Rightarrow> optimizerState \<Rightarrow> rebalanceTransaction list \<times> optimizerState" where
  "executeRebalance env newStrategy s =
     (let totalValue = getTotalPortfolioValue (positions s);
          movements = calculateRequiredMovements (positions s) newStrategy totalValue;
          (transactions, s1) = executeMovements env movements [] s;
          s2 = s1\<lparr>currentStrategy := newStrategy\<rparr>
      in (map (\<lambda>a. transactionObjects s2 ! a) transactions, s2))"

section \<open>Notions used in the statements\<close>

text \<open>The sum of the amounts of a map of surpluses or deficits, and of a list of movements.\<close>

definition total_amount :: "(string \<times> int) list \<Rightarrow> int" where
  "total_amount m = sum_list (jsmap_values m)"

definition moved :: "movement list \<Rightarrow> int" where
  "moved ms = sum_list (map mv_amount ms)"

text \<open>The two maps that the first loop of the planner builds.\<close>

definition surpluses_of :: "(string \<times> portfolioPosition) list \<Rightarrow> optimizationStrategy \<Rightarrow> int \<Rightarrow> (string \<times> int) list" where
  "surpluses_of ps newStrategy totalValue = fst (classify ps totalValue (targetAllocations newStrategy) ([], []))"

definition deficits_of :: "(string \<times> portfolioPosition) list \<Rightarrow> optimizationStrategy \<Rightarrow> int \<Rightarrow> (string \<times> int) list" where
  "deficits_of ps newStrategy totalValue = snd (classify ps totalValue (targetAllocations newStrategy) ([], []))"

text \<open>A map of amounts as the planner keeps it: unique keys, every amount positive.\<close>

definition positive_map :: "(string \<times> int) list \<Rightarrow> bool" where
  "positive_map m = (distinct (map fst m) \<and> (\<forall>e \<in> set m. 0 < snd e))"

text \<open>
  What one run of the inner loop achieves, from the deficits \<open>pre @ todo\<close> with \<open>todo\<close>
  still to visit and the movements \<open>ms\<close> emitted so far.
\<close>

definition drained ::
  "string \<Rightarrow> int \<Rightarrow> (string \<times> int) list \<Rightarrow> (string \<times> int) list \<Rightarrow>
   (string \<times> int) list \<times> movement list \<Rightarrow> movement list \<Rightarrow> bool" where
  "drained f r pre todo res ms =
     (\<exists>new. snd res = ms @ new
        \<and> moved new = min r (total_amount todo)
        \<and> (\<forall>m \<in> set new. 0 < mv_amount m \<and> mv_from m = f \<and> mv_to m \<in> fst ` set todo)
        \<and> positive_map (fst res)
        \<and> total_amount (fst res) = total_amount (pre @ todo) - min r (total_amount todo)
        \<and> fst ` set (fst res) \<subseteq> fst ` set (pre @ todo))"

text \<open>A protocol is known to the store when \<^verbatim>\<open>positions.get\<close> finds a position for it.\<close>

definition has_position :: "(string \<times> portfolioPosition) list \<Rightarrow> string \<Rightarrow> bool" where
  "has_position ps k = (jsmap_get ps k \<noteq> None)"

text \<open>A strategy restricted to the targets of known protocols.\<close>

definition known_targets :: "(string \<times> portfolioPosition) list \<Rightarrow> optimizationStrategy \<Rightarrow> optimizationStrategy" where
  "known_targets ps st = st\<lparr>targetAllocations := filter (\<lambda>e. has_position ps (fst e)) (targetAllocations st)\<rparr>"

text \<open>The amount the store holds for a protocol, if it holds a position for it.\<close>

definition amount_of :: "(string \<times> portfolioPosition) list \<Rightarrow> string \<Rightarrow> int option" where
  "amount_of ps k = map_option currentAmount (jsmap_get ps k)"

text \<open>
  The Herfindahl-Hirschman index of a list of protocols: the sum of the squares of the
  shares of the total staked value.
\<close>

definition total_staked :: "stakingProtocol list \<Rightarrow> int" where
  "total_staked protocols = sum_list (map totalStaked protocols)"

definition share :: "stakingProtocol list \<Rightarrow> stakingProtocol \<Rightarrow> real" where
  "share protocols p = real_of_int (totalStaked p) / real_of_int (total_staked protocols)"

definition hhi :: "stakingProtocol list \<Rightarrow> real" where
  "hhi protocols = sum_list (map (\<lambda>p. (share protocols p)\<^sup>2) protocols)"

text \<open>The protocol at index \<open>i\<close> holds everything; all protocols hold the same.\<close>

definition sole_holder :: "stakingProtocol list \<Rightarrow> nat \<Rightarrow> bool" where
  "sole_holder protocols i =
     (i < length protocols \<and> (\<forall>j < length protocols. j \<noteq> i \<longrightarrow> totalStaked (protocols ! j) = 0))"

definition equal_stakes :: "stakingProtocol list \<Rightarrow> bool" where
  "equal_stakes protocols = (\<forall>p \<in> set protocols. totalStaked p = totalStaked (hd protocols))"

text \<open>
  The current percentage the decision gate reads for a protocol, and a store that holds
  every protocol of a strategy at exactly its target.
\<close>

definition current_percentage_of :: "(string \<times> portfolioPosition) list \<Rightarrow> string \<Rightarrow> real" where
  "current_percentage_of ps k = or_else (map_option currentPercentage (jsmap_get ps k)) 0"

definition on_target :: "(string \<times> portfolioPosition) list \<Rightarrow> optimizationStrategy \<Rightarrow> bool" where
  "on_target ps st = (\<forall>e \<in> set (targetAllocations st). current_percentage_of ps (fst e) = snd e)"

text \<open>
  One turn of the loop of \<^verbatim>\<open>executeRebalance\<close>: the transaction object is created at
  the next free address and the movement is executed on it.
\<close>

definition attempt :: "environment \<Rightarrow> movement \<Rightarrow> optimizerState \<Rightarrow> optimizerState" where
  "attempt env m s = snd (executeMovements env [m] [] s)"

text \<open>The state in which movement number \<open>k\<close> of a list begins.\<close>

definition state_before :: "environment \<Rightarrow> movement list \<Rightarrow> optimizerState \<Rightarrow> nat \<Rightarrow> optimizerState" where
  "state_before env ms s k = snd (executeMovements env (take k ms) [] s)"

text \<open>The calls made to the settlement layer while movement number \<open>k\<close> is processed.\<close>

definition calls_during :: "environment \<Rightarrow> movement list \<Rightarrow> optimizerState \<Rightarrow> nat \<Rightarrow> call list" where
  "calls_during env ms s k =
     drop (length (serviceCalls (state_before env ms s k))) (serviceCalls (state_before env ms s (Suc k)))"

text \<open>
  The withdrawal that movement number \<open>k\<close> submits gets no reference: the answer of
  \<^verbatim>\<open>executeUnstake\<close> at that point of the history is falsy.
\<close>

definition withdrawal_refused :: "environment \<Rightarrow> movement list \<Rightarrow> optimizerState \<Rightarrow> nat \<Rightarrow> bool" where
  "withdrawal_refused env ms s k =
     (\<not> truthy (executeUnstake env (serviceCalls (state_before env ms s k) @ [GetGasPrice])
                   (mv_from (ms ! k)) (mv_amount (ms ! k))))"

definition is_stake :: "call \<Rightarrow> bool" where
  "is_stake c = (case c of ExecuteStake p amt \<Rightarrow> True | _ \<Rightarrow> False)"

text \<open>The final status and the calls of \<^verbatim>\<open>executeMovement\<close>, path by path, from the history \<open>h\<close> of calls.\<close>

definition movement_outcome :: "environment \<Rightarrow> movement \<Rightarrow> call list \<Rightarrow> txStatus \<times> call list" where
  "movement_outcome env m h =
     (let u = ExecuteUnstake (mv_from m) (mv_amount m);
          k = ExecuteStake (mv_to m) (mv_amount m);
          uh = executeUnstake env h (mv_from m) (mv_amount m)
      in if \<not> truthy uh then (Failed, [u])
         else if \<not> waitForTransaction env (h @ [u]) (the uh) then (Failed, [u, WaitForTransaction (the uh)])
         else (let kh = executeStake env (h @ [u, WaitForTransaction (the uh)]) (mv_to m) (mv_amount m)
               in if \<not> truthy kh then (Failed, [u, WaitForTransaction (the uh), k])
                  else if waitForTransaction env (h @ [u, WaitForTransaction (the uh), k]) (the kh)
                       then (Completed, [u, WaitForTransaction (the uh), k, WaitForTransaction (the kh)])
                       else (Failed, [u, WaitForTransaction (the uh), k, WaitForTransaction (the kh)])))"

text \<open>
  The transitions of a transaction's status, the two final statuses, the writes to the
  status of the object at address \<open>a\<close> among a list of writes, and the writes that a
  run from \<open>s\<close> to \<open>s'\<close> has added.
\<close>

fun status_step :: "txStatus \<Rightarrow> txStatus \<Rightarrow> bool" where
  "status_step Pending Executing = True"
| "status_step Executing Completed = True"
| "status_step Executing Failed = True"
| "status_step _ _ = False"

definition terminal :: "txStatus \<Rightarrow> bool" where
  "terminal st = (st = Completed \<or> st = Failed)"

definition history_of :: "nat \<Rightarrow> (nat \<times> txStatus) list \<Rightarrow> txStatus list" where
  "history_of a ws = map snd (filter (\<lambda>w. fst w = a) ws)"

definition new_writes :: "optimizerState \<Rightarrow> optimizerState \<Rightarrow> (nat \<times> txStatus) list" where
  "new_writes s s' = drop (length (statusWrites s)) (statusWrites s')"

text \<open>The loop of the executor on a list of movements, with the transactions it returns.\<close>

definition run_movements ::
  "environment \<Rightarrow> movement list \<Rightarrow> optimizerState \<Rightarrow> rebalanceTransaction list \<times> optimizerState" where
  "run_movements env ms s =
     (case executeMovements env ms [] s of
        (transactions, s1) \<Rightarrow> (map (\<lambda>a. transactionObjects s1 ! a) transactions, s1))"

text \<open>
  The writes \<open>new\<close> to the statuses of the objects \<open>objs\<close> are those of \<open>k\<close> transactions
  created from address \<open>n\<close> on: nothing is written to an older object, and each new
  object went from pending to executing to the final status it now has.
\<close>

definition writes_ok :: "nat \<Rightarrow> nat \<Rightarrow> rebalanceTransaction list \<Rightarrow> (nat \<times> txStatus) list \<Rightarrow> bool" where
  "writes_ok n k objs new =
     ((\<forall>a < n. history_of a new = [])
      \<and> (\<forall>a. n \<le> a \<and> a < n + k \<longrightarrow>
            history_of a new = [Pending, Executing, status (objs ! a)] \<and> terminal (status (objs ! a))))"

text \<open>
  The entries the allocation loop produces for the protocols \<open>es\<close> in their order, when
  \<open>remaining\<close> is still unallocated: each takes the smaller of its raw allocation and of
  what remains.
\<close>

fun clamped :: "riskTolerance \<Rightarrow> (string \<times> real) list \<Rightarrow> (string \<times> real) list \<Rightarrow> real option \<Rightarrow> (string \<times> real option) list" where
  "clamped tolerance risks [] remaining = []"
| "clamped tolerance risks (e # es) remaining =
     (fst e, math_min (rawAllocation tolerance risks e) remaining)
       # clamped tolerance risks es (number_minus remaining (math_min (rawAllocation tolerance risks e) remaining))"

text \<open>The protocols of a snapshot in the order in which the optimizer processes them.\<close>

definition processing_order :: "marketData \<Rightarrow> (string \<times> real) list" where
  "processing_order md = sortedProtocols (riskAdjust (protocolRisks md) (protocolAPRs md) [])"

text \<open>
  A name that objects inherit as a property, and a snapshot in whose yield map no
  protocol has such a name.
\<close>

definition inherited_name :: "string \<Rightarrow> bool" where
  "inherited_name k = (k \<in> set objectPrototypeKeys)"

definition plain_names :: "marketData \<Rightarrow> bool" where
  "plain_names md = (\<forall>e \<in> set (protocolAPRs md). \<not> inherited_name (fst e))"

text \<open>Allocations that are all numbers, as the optimizer stores them.\<close>

definition as_numbers :: "(string \<times> real) list \<Rightarrow> (string \<times> real option) list" where
  "as_numbers allocs = map (\<lambda>e. (fst e, Some (snd e))) allocs"

section \<open>Concrete inputs\<close>

definition protocol_named :: "string \<Rightarrow> real \<Rightarrow> stakingProtocol" where
  "protocol_named n cap =
     \<lparr>name = n, address = [], protocolType = Lido, currentAPR = 0, exchangeRate = 1, totalStaked = 0,
      protocolRiskScore = 0, gasEfficiency = 0, withdrawalDelay = 0, maxAllocation = cap\<rparr>"

definition position_of :: "string \<Rightarrow> int \<Rightarrow> real \<Rightarrow> portfolioPosition" where
  "position_of n amt pct =
     \<lparr>protocol = protocol_named n 100, currentAmount = amt, targetAmount = 0, currentPercentage = pct,
      targetPercentage = 0, lstTokenBalance = 0, pendingWithdrawals = 0\<rparr>"

text \<open>A strategy with the scalar fields of the constructor's default strategy.\<close>

definition strategy_with :: "(string \<times> real) list \<Rightarrow> optimizationStrategy" where
  "strategy_with allocs =
     \<lparr>targetAllocations = allocs, expectedAPR = 8, riskScore = Some 3, rebalanceThreshold = 0.05,
      maxGasPrice = 50, riskTolerance = Moderate\<rparr>"

text \<open>Total value 100, held 70 and 30, targets 40 and 60.\<close>

definition scenarioC_positions :: "(string \<times> portfolioPosition) list" where
  "scenarioC_positions = [(''X'', position_of ''X'' 70 70), (''Y'', position_of ''Y'' 30 30)]"

definition scenarioC_strategy :: optimizationStrategy where
  "scenarioC_strategy = strategy_with [(''X'', 40), (''Y'', 60)]"

text \<open>Targets that add up to 110, and targets that name a protocol the store does not hold.\<close>

definition over_strategy :: optimizationStrategy where
  "over_strategy = strategy_with [(''X'', 40), (''Y'', 70)]"

definition unknown_strategy :: optimizationStrategy where
  "unknown_strategy = strategy_with [(''X'', 40), (''Y'', 50), (''Z'', 10)]"

text \<open>Two protocols with 50 staked each, and one protocol next to an empty one.\<close>

definition staked_protocol :: "string \<Rightarrow> int \<Rightarrow> stakingProtocol" where
  "staked_protocol n amt = (protocol_named n 100)\<lparr>totalStaked := amt\<rparr>"

definition two_equal :: "stakingProtocol list" where
  "two_equal = [staked_protocol ''X'' 50, staked_protocol ''Y'' 50]"

definition one_holds_all :: "stakingProtocol list" where
  "one_holds_all = [staked_protocol ''X'' 0, staked_protocol ''Y'' 80]"

text \<open>The strategy the constructor installs.\<close>

definition default_strategy :: optimizationStrategy where
  "default_strategy = strategy_with [(''lido'', 35), (''rocketpool'', 25), (''etherfi'', 25), (''morpho'', 15)]"

text \<open>A settlement layer that reports a gas price of 10 and accepts nothing.\<close>

definition idle_env :: environment where
  "idle_env = \<lparr>getGasPrice = (\<lambda>_. 10), executeUnstake = (\<lambda>_ _ _. None), executeStake = (\<lambda>_ _ _. None),
               waitForTransaction = (\<lambda>_ _. False), newTxId = (\<lambda>_. ''tx''), newDate = (\<lambda>_. 0)\<rparr>"

definition state_with :: "optimizationStrategy \<Rightarrow> (string \<times> portfolioPosition) list \<Rightarrow> optimizerState" where
  "state_with st ps =
     \<lparr>currentStrategy = st, positions = ps, pendingTransactions = [], transactionObjects = [],
      statusWrites = [], serviceCalls = []\<rparr>"

text \<open>The default strategy over four equal holdings, and over holdings that are on target.\<close>

definition equal_holdings :: optimizerState where
  "equal_holdings = state_with default_strategy
     [(''lido'', position_of ''lido'' 25 25), (''rocketpool'', position_of ''rocketpool'' 25 25),
      (''etherfi'', position_of ''etherfi'' 25 25), (''morpho'', position_of ''morpho'' 25 25)]"

definition target_holdings :: optimizerState where
  "target_holdings = state_with default_strategy
     [(''lido'', position_of ''lido'' 35 35), (''rocketpool'', position_of ''rocketpool'' 25 25),
      (''etherfi'', position_of ''etherfi'' 25 25), (''morpho'', position_of ''morpho'' 15 15)]"

text \<open>
  Holdings 70, 20 and 10 with targets 40, 30 and 30: the planner moves 10 from X to Y and
  20 from X to Z. The settlement layer gives no reference for a withdrawal of 10 and
  accepts and confirms everything else.
\<close>

definition three_holdings :: optimizerState where
  "three_holdings = state_with default_strategy
     [(''X'', position_of ''X'' 70 70), (''Y'', position_of ''Y'' 20 20), (''Z'', position_of ''Z'' 10 10)]"

definition three_targets :: optimizationStrategy where
  "three_targets = strategy_with [(''X'', 40), (''Y'', 30), (''Z'', 30)]"

definition three_movements :: "movement list" where
  "three_movements = [\<lparr>mv_from = ''X'', mv_to = ''Y'', mv_amount = 10\<rparr>,
                      \<lparr>mv_from = ''X'', mv_to = ''Z'', mv_amount = 20\<rparr>]"

definition refusing_env :: environment where
  "refusing_env =
     \<lparr>getGasPrice = (\<lambda>_. 10),
      executeUnstake = (\<lambda>_ _ amt. if amt = 10 then None else Some ''0xu''),
      executeStake = (\<lambda>_ _ _. Some ''0xs''),
      waitForTransaction = (\<lambda>_ _. True),
      newTxId = (\<lambda>h. replicate (length h) (CHR ''i'')),
      newDate = (\<lambda>h. int (length h))\<rparr>"

text \<open>The same holdings after an earlier rebalance that left one completed transaction.\<close>

definition old_transaction :: rebalanceTransaction where
  "old_transaction =
     \<lparr>txId = ''old'', fromProtocol = ''Z'', toProtocol = ''X'', amount = 5, txGasPrice = 10,
      estimatedGas = 0, status = Completed, txHash = Some ''0xold'', timestamp = 0\<rparr>"

definition with_history :: optimizerState where
  "with_history = three_holdings
     \<lparr>pendingTransactions := [(''old'', 0)], transactionObjects := [old_transaction],
      statusWrites := [(0, Pending), (0, Executing), (0, Completed)]\<rparr>"

text \<open>
  Morpho as the data service configures it (cap 25), and a snapshot in which it yields
  17 at no risk.
\<close>

definition morpho_protocol :: stakingProtocol where
  "morpho_protocol =
     \<lparr>name = ''morpho'', address = [], protocolType = Morpho, currentAPR = 9.2, exchangeRate = 1.05, totalStaked = 0,
      protocolRiskScore = 3, gasEfficiency = 70, withdrawalDelay = 0, maxAllocation = 25\<rparr>"

definition high_yield_market :: marketData where
  "high_yield_market =
     \<lparr>gasPrice = 42, ethPrice = 2340, protocolAPRs = [(''morpho'', 17)], protocolRisks = [(''morpho'', 0)]\<rparr>"

text \<open>A snapshot with a yield of 7 for Lido and no risk entry for it.\<close>

definition partial_market :: marketData where
  "partial_market = \<lparr>gasPrice = 42, ethPrice = 2340, protocolAPRs = [(''lido'', 7)], protocolRisks = []\<rparr>"

text \<open>A snapshot with a protocol named \<^verbatim>\<open>constructor\<close>, yielding 9, next to Lido.\<close>

definition inherited_market :: marketData where
  "inherited_market =
     \<lparr>gasPrice = 42, ethPrice = 2340, protocolAPRs = [(''constructor'', 9), (''lido'', 7)], protocolRisks = []\<rparr>"

section \<open>Properties of the movement planner\<close>

lemma jsmap_set_mid:
  "k \<notin> fst ` set pre \<Longrightarrow> jsmap_set k v' (pre @ (k, v) # post) = pre @ (k, v') # post"
  by (induction pre) auto

lemma jsmap_delete_mid:
  "distinct (map fst (pre @ (k, v) # post)) \<Longrightarrow> jsmap_delete k (pre @ (k, v) # post) = pre @ post"
proof -
  have id: "\<And>m::('a \<times> 'b) list. k \<notin> fst ` set m \<Longrightarrow> filter (\<lambda>e. fst e \<noteq> k) m = m"
    by (rule filter_True) force
  assume "distinct (map fst (pre @ (k, v) # post))"
  then have "k \<notin> fst ` set pre" "k \<notin> fst ` set post" by auto
  then show ?thesis by (simp add: jsmap_delete_def id)
qed

lemma jsmap_get_mid:
  "k \<notin> fst ` set pre \<Longrightarrow> jsmap_get (pre @ (k, v) # post) k = Some v"
  by (induction pre) (auto simp: jsmap_get_def)

lemma jsmap_set_keys:
  "map fst (jsmap_set k v m) = (if k \<in> fst ` set m then map fst m else map fst m @ [k])"
  by (induction m) force+

lemma jsmap_set_distinct: "distinct (map fst m) \<Longrightarrow> distinct (map fst (jsmap_set k v m))"
  by (simp add: jsmap_set_keys)

lemma jsmap_set_entries: "set (jsmap_set k v m) \<subseteq> insert (k, v) (set m)"
  by (induction m) (auto split: if_splits)

lemma total_amount_simps:
  "total_amount [] = 0"
  "total_amount (e # m) = snd e + total_amount m"
  "total_amount (m @ m') = total_amount m + total_amount m'"
  by (simp_all add: total_amount_def jsmap_values_def)

lemma moved_simps:
  "moved [] = 0"
  "moved (x # ms) = mv_amount x + moved ms"
  "moved (ms @ ms') = moved ms + moved ms'"
  by (simp_all add: moved_def)

lemma total_amount_nonneg: "positive_map m \<Longrightarrow> 0 \<le> total_amount m"
  by (induction m) (auto simp: positive_map_def total_amount_simps)

lemma match_deficits_stop:
  "match_deficits f 0 todo deficits ms = (deficits, ms)"
  by (cases todo) auto

lemma match_deficits_partial:
  assumes "r \<noteq> 0" "r < d" "t \<notin> fst ` set pre"
  shows "match_deficits f r ((t, d) # todo) (pre @ (t, d) # todo) ms
         = match_deficits f 0 todo (pre @ (t, d - r) # todo) (ms @ [\<lparr>mv_from = f, mv_to = t, mv_amount = r\<rparr>])"
  using assms by (simp add: jsmap_set_mid jsmap_get_mid)

lemma match_deficits_full:
  assumes "r \<noteq> 0" "\<not> r < d" "distinct (map fst (pre @ (t, d) # todo))"
  shows "match_deficits f r ((t, d) # todo) (pre @ (t, d) # todo) ms
         = match_deficits f (r - d) todo (pre @ todo) (ms @ [\<lparr>mv_from = f, mv_to = t, mv_amount = d\<rparr>])"
proof -
  have tnot: "t \<notin> fst ` set pre" using assms(3) by auto
  have dist: "distinct (map fst (pre @ (t, 0::int) # todo))" using assms(3) by simp
  show ?thesis
    using assms(1,2) tnot jsmap_delete_mid[OF dist]
    by (simp add: jsmap_set_mid jsmap_get_mid)
qed

lemma drained_step:
  assumes "drained f r' pre' todo res (ms @ [mv])"
    and "0 < mv_amount mv" "mv_from mv = f" "mv_to mv = t"
    and "mv_amount mv + min r' (total_amount todo) = min r (d + total_amount todo)"
    and "total_amount (pre' @ todo) + mv_amount mv = total_amount (pre @ (t, d) # todo)"
    and "fst ` set (pre' @ todo) \<subseteq> fst ` set (pre @ (t, d) # todo)"
  shows "drained f r pre ((t, d) # todo) res ms"
proof -
  from assms(1) obtain new where
    n1: "snd res = (ms @ [mv]) @ new"
    and n2: "moved new = min r' (total_amount todo)"
    and n3: "\<forall>m \<in> set new. 0 < mv_amount m \<and> mv_from m = f \<and> mv_to m \<in> fst ` set todo"
    and n4: "positive_map (fst res)"
    and n5: "total_amount (fst res) = total_amount (pre' @ todo) - min r' (total_amount todo)"
    and n6: "fst ` set (fst res) \<subseteq> fst ` set (pre' @ todo)"
    unfolding drained_def by blast
  have c0: "snd res = ms @ (mv # new)" using n1 by simp
  have c1: "moved (mv # new) = min r (total_amount ((t, d) # todo))"
    using n2 assms(5) by (simp add: moved_simps total_amount_simps)
  have c2: "\<forall>m \<in> set (mv # new). 0 < mv_amount m \<and> mv_from m = f \<and> mv_to m \<in> fst ` set ((t, d) # todo)"
    using n3 assms(2,3,4) by auto
  have c3: "total_amount (fst res) = total_amount (pre @ (t, d) # todo) - min r (total_amount ((t, d) # todo))"
    using n5 assms(5,6) by (simp add: total_amount_simps)
  have c4: "fst ` set (fst res) \<subseteq> fst ` set (pre @ (t, d) # todo)"
    using n6 assms(7) by blast
  show ?thesis unfolding drained_def using c0 c1 c2 n4 c3 c4 by blast
qed

lemma match_deficits_inv:
  "positive_map (pre @ todo) \<Longrightarrow> 0 \<le> r \<Longrightarrow>
   drained f r pre todo (match_deficits f r todo (pre @ todo) ms) ms"
proof (induction todo arbitrary: pre r ms)
  case Nil
  then show ?case by (simp add: drained_def moved_simps total_amount_simps)
next
  case (Cons e todo)
  obtain t d where e: "e = (t, d)" by (cases e)
  have pm: "positive_map (pre @ (t, d) # todo)" using Cons.prems e by simp
  have dist: "distinct (map fst (pre @ (t, d) # todo))" using pm by (simp add: positive_map_def)
  have dpos: "0 < d" using pm by (simp add: positive_map_def)
  have tnot: "t \<notin> fst ` set pre" using dist by auto
  have pm_rest: "positive_map (pre @ todo)" using pm by (auto simp: positive_map_def)
  have "positive_map todo" using pm by (auto simp: positive_map_def)
  then have rest_nonneg: "0 \<le> total_amount todo" by (rule total_amount_nonneg)
  show ?case
  proof (cases "r = 0")
    case True
    have "drained f 0 pre ((t, d) # todo) (pre @ (t, d) # todo, ms) ms"
      using pm dpos rest_nonneg by (simp add: drained_def moved_simps total_amount_simps)
    then show ?thesis using True e by (simp only: match_deficits_stop)
  next
    case False
    then have rpos: "0 < r" using Cons.prems by simp
    show ?thesis
    proof (cases "r < d")
      case True
      let ?mv = "\<lparr>mv_from = f, mv_to = t, mv_amount = r\<rparr>"
      let ?pre' = "pre @ [(t, d - r)]"
      have pm': "positive_map (?pre' @ todo)"
        using pm True by (auto simp: positive_map_def)
      have ih: "drained f 0 ?pre' todo (match_deficits f 0 todo (?pre' @ todo) (ms @ [?mv])) (ms @ [?mv])"
        by (rule Cons.IH[OF pm']) simp
      have "drained f r pre ((t, d) # todo) (match_deficits f 0 todo (?pre' @ todo) (ms @ [?mv])) ms"
        by (rule drained_step[OF ih]) (use True rpos dpos rest_nonneg in \<open>auto simp: total_amount_simps\<close>)
      then show ?thesis using match_deficits_partial[OF False True tnot] e by simp
    next
      case nless: False
      let ?mv = "\<lparr>mv_from = f, mv_to = t, mv_amount = d\<rparr>"
      have r': "0 \<le> r - d" using nless by simp
      have ih: "drained f (r - d) pre todo (match_deficits f (r - d) todo (pre @ todo) (ms @ [?mv])) (ms @ [?mv])"
        by (rule Cons.IH[OF pm_rest r'])
      have "drained f r pre ((t, d) # todo) (match_deficits f (r - d) todo (pre @ todo) (ms @ [?mv])) ms"
        by (rule drained_step[OF ih]) (use nless dpos rest_nonneg in \<open>auto simp: total_amount_simps\<close>)
      then show ?thesis using match_deficits_full[OF False nless dist] e by simp
    qed
  qed
qed

lemma match_surpluses_inv:
  "positive_map deficits \<Longrightarrow> \<forall>e \<in> set surpluses. 0 < snd e \<Longrightarrow>
   \<exists>new. match_surpluses surpluses deficits ms = ms @ new
     \<and> moved new = min (total_amount surpluses) (total_amount deficits)
     \<and> (\<forall>m \<in> set new. 0 < mv_amount m \<and> mv_from m \<in> fst ` set surpluses
                          \<and> mv_to m \<in> fst ` set deficits)"
proof (induction surpluses arbitrary: deficits ms)
  case Nil
  then show ?case using total_amount_nonneg[of deficits]
    by (simp add: moved_simps total_amount_simps)
next
  case (Cons e surpluses)
  obtain f s where e: "e = (f, s)" by (cases e)
  have spos: "0 < s" using Cons.prems(2) e by simp
  have rest_pos: "\<forall>e \<in> set surpluses. 0 < snd e" using Cons.prems(2) by simp
  then have rest_nonneg: "0 \<le> total_amount surpluses"
    by (induction surpluses) (auto simp: total_amount_simps)
  have dn: "0 \<le> total_amount deficits" using Cons.prems(1) by (rule total_amount_nonneg)
  obtain d1 ms1 where run: "match_deficits f s deficits deficits ms = (d1, ms1)"
    by (cases "match_deficits f s deficits deficits ms")
  have "drained f s [] deficits (match_deficits f s deficits ([] @ deficits) ms) ms"
    by (rule match_deficits_inv) (use Cons.prems(1) spos in auto)
  then obtain new1 where
    a1: "ms1 = ms @ new1"
    and a2: "moved new1 = min s (total_amount deficits)"
    and a3: "\<forall>m \<in> set new1. 0 < mv_amount m \<and> mv_from m = f \<and> mv_to m \<in> fst ` set deficits"
    and a4: "positive_map d1"
    and a5: "total_amount d1 = total_amount deficits - min s (total_amount deficits)"
    and a6: "fst ` set d1 \<subseteq> fst ` set deficits"
    unfolding drained_def using run by auto
  from Cons.IH[OF a4 rest_pos, of ms1] obtain new2 where
    b1: "match_surpluses surpluses d1 ms1 = ms1 @ new2"
    and b2: "moved new2 = min (total_amount surpluses) (total_amount d1)"
    and b3: "\<forall>m \<in> set new2. 0 < mv_amount m \<and> mv_from m \<in> fst ` set surpluses \<and> mv_to m \<in> fst ` set d1"
    by blast
  have c0: "match_surpluses (e # surpluses) deficits ms = ms @ (new1 @ new2)"
    using run a1 b1 e by simp
  have c1: "moved (new1 @ new2) = min (total_amount (e # surpluses)) (total_amount deficits)"
    using a2 b2 a5 rest_nonneg dn spos e by (simp add: moved_simps total_amount_simps)
  have c2: "\<forall>m \<in> set (new1 @ new2). 0 < mv_amount m \<and> mv_from m \<in> fst ` set (e # surpluses)
                          \<and> mv_to m \<in> fst ` set deficits"
    using a3 b3 a6 e by auto
  show ?case using c0 c1 c2 by blast
qed

lemma positive_map_set:
  assumes "positive_map m" "0 < v"
  shows "positive_map (jsmap_set k v m)"
proof -
  have "\<forall>e \<in> set (jsmap_set k v m). 0 < snd e"
    using jsmap_set_entries[of k v m] assms by (auto simp: positive_map_def)
  then show ?thesis using assms(1) by (simp add: positive_map_def jsmap_set_distinct)
qed

lemma classify_step_positive:
  "positive_map (fst sd) \<Longrightarrow> positive_map (snd sd) \<Longrightarrow>
   positive_map (fst (classify_step ps tv e sd)) \<and> positive_map (snd (classify_step ps tv e sd))"
  by (auto simp: classify_step_def Let_def positive_map_set split: option.splits)

lemma classify_positive:
  "positive_map (fst sd) \<Longrightarrow> positive_map (snd sd) \<Longrightarrow>
   positive_map (fst (classify ps tv es sd)) \<and> positive_map (snd (classify ps tv es sd))"
  by (induction es arbitrary: sd) (simp_all add: classify_step_positive)

lemma planner_movements:
  "\<exists>new. calculateRequiredMovements ps st tv = new
     \<and> moved new = min (total_amount (surpluses_of ps st tv)) (total_amount (deficits_of ps st tv))
     \<and> (\<forall>m \<in> set new. 0 < mv_amount m \<and> mv_from m \<in> fst ` set (surpluses_of ps st tv)
                          \<and> mv_to m \<in> fst ` set (deficits_of ps st tv))"
proof -
  have pm: "positive_map (surpluses_of ps st tv) \<and> positive_map (deficits_of ps st tv)"
    unfolding surpluses_of_def deficits_of_def
    by (rule classify_positive) (simp_all add: positive_map_def)
  then have "\<forall>e \<in> set (surpluses_of ps st tv). 0 < snd e" by (simp add: positive_map_def)
  from match_surpluses_inv[OF conjunct2[OF pm] this, of "[]"]
  show ?thesis
    by (simp add: calculateRequiredMovements_def surpluses_of_def deficits_of_def case_prod_beta)
qed

text \<open>
  Claim C5. For every strategy and every position map, the amounts of the movements that
  the planner emits add up to the minimum of the total surplus and the total deficit of
  the classified protocols, and no emitted movement has amount 0.
\<close>

theorem movement_conservation:
  "moved (calculateRequiredMovements ps st tv)
     = min (total_amount (surpluses_of ps st tv)) (total_amount (deficits_of ps st tv))
   \<and> (\<forall>m \<in> set (calculateRequiredMovements ps st tv). mv_amount m \<noteq> 0)"
  using planner_movements[of ps st tv] by auto

lemma scenarioC_plan:
  "calculateRequiredMovements scenarioC_positions scenarioC_strategy 100
     = [\<lparr>mv_from = ''X'', mv_to = ''Y'', mv_amount = 30\<rparr>]"
  by (simp add: calculateRequiredMovements_def scenarioC_positions_def scenarioC_strategy_def
      strategy_with_def position_of_def classify_step_def jsmap_get_def jsmap_delete_def
      math_round_def bigint_div_def Let_def)

theorem movement_conservation_witness:
  "\<lparr>mv_from = ''X'', mv_to = ''Y'', mv_amount = 30\<rparr>
      \<in> set (calculateRequiredMovements scenarioC_positions scenarioC_strategy 100)
   \<and> mv_amount \<lparr>mv_from = ''X'', mv_to = ''Y'', mv_amount = 30\<rparr> \<noteq> 0
   \<and> moved (calculateRequiredMovements scenarioC_positions scenarioC_strategy 100) = 30"
  using movement_conservation[of scenarioC_positions scenarioC_strategy 100]
  by (simp add: scenarioC_plan moved_def)

section \<open>The planner validates nothing\<close>

lemma jsmap_set_key_set: "fst ` set (jsmap_set k v m) = insert k (fst ` set m)"
  using arg_cong[OF jsmap_set_keys[of k v m], of set] by (auto simp del: jsmap_set.simps)

lemma classify_known:
  "classify ps tv (filter (\<lambda>e. has_position ps (fst e)) es) sd = classify ps tv es sd"
  by (induction es arbitrary: sd) (auto simp: classify_step_def has_position_def)

lemma classify_step_keys:
  assumes "\<forall>k \<in> fst ` set (fst sd) \<union> fst ` set (snd sd). has_position ps k"
  shows "\<forall>k \<in> fst ` set (fst (classify_step ps tv e sd)) \<union> fst ` set (snd (classify_step ps tv e sd)).
           has_position ps k"
proof (cases "jsmap_get ps (fst e)")
  case None
  then show ?thesis using assms by (simp add: classify_step_def)
next
  case (Some p)
  then have "has_position ps (fst e)" by (simp add: has_position_def)
  then show ?thesis
    using assms Some by (simp add: classify_step_def Let_def jsmap_set_key_set)
qed

lemma classify_keys:
  "\<forall>k \<in> fst ` set (fst sd) \<union> fst ` set (snd sd). has_position ps k \<Longrightarrow>
   \<forall>k \<in> fst ` set (fst (classify ps tv es sd)) \<union> fst ` set (snd (classify ps tv es sd)).
      has_position ps k"
proof (induction es arbitrary: sd)
  case Nil
  then show ?case by simp
next
  case (Cons e es)
  show ?case using Cons.IH[OF classify_step_keys[OF Cons.prems]] by simp
qed

text \<open>
  Claim C4, amended. The planner rejects no strategy. A target for a protocol without a
  position in the store is skipped: the movements are those of the strategy restricted
  to the known protocols, and no movement names a protocol without a position. Whether
  the targets add up to more than 100 is not looked at.
\<close>

theorem unknown_targets_skipped:
  "calculateRequiredMovements ps st tv = calculateRequiredMovements ps (known_targets ps st) tv
   \<and> (\<forall>m \<in> set (calculateRequiredMovements ps st tv).
         has_position ps (mv_from m) \<and> has_position ps (mv_to m))"
proof
  show "calculateRequiredMovements ps st tv = calculateRequiredMovements ps (known_targets ps st) tv"
    by (simp add: calculateRequiredMovements_def known_targets_def classify_known)
next
  have keys: "\<forall>k \<in> fst ` set (surpluses_of ps st tv) \<union> fst ` set (deficits_of ps st tv). has_position ps k"
    unfolding surpluses_of_def deficits_of_def by (rule classify_keys) simp
  show "\<forall>m \<in> set (calculateRequiredMovements ps st tv).
         has_position ps (mv_from m) \<and> has_position ps (mv_to m)"
    using planner_movements[of ps st tv] keys by blast
qed

lemmas plan_eval = calculateRequiredMovements_def scenarioC_positions_def
      strategy_with_def position_of_def classify_step_def jsmap_get_def jsmap_delete_def
      math_round_def bigint_div_def Let_def

lemma unknown_plan:
  "calculateRequiredMovements scenarioC_positions unknown_strategy 100
     = [\<lparr>mv_from = ''X'', mv_to = ''Y'', mv_amount = 20\<rparr>]"
  by (simp add: plan_eval unknown_strategy_def)

text \<open>
  Claim C4 as stated fails: with holdings 70 and 30, targets adding up to 110 are planned
  (one movement of 30), and so are targets that name the unknown protocol Z (one movement
  of 20).
\<close>

theorem invalid_strategy_counterexample:
  "sum_list (jsmap_values (targetAllocations over_strategy)) > 100
   \<and> calculateRequiredMovements scenarioC_positions over_strategy 100
        = [\<lparr>mv_from = ''X'', mv_to = ''Y'', mv_amount = 30\<rparr>]
   \<and> \<not> has_position scenarioC_positions ''Z''
   \<and> jsmap_get (targetAllocations unknown_strategy) ''Z'' = Some 10
   \<and> calculateRequiredMovements scenarioC_positions unknown_strategy 100
        = [\<lparr>mv_from = ''X'', mv_to = ''Y'', mv_amount = 20\<rparr>]"
  by (simp add: plan_eval unknown_strategy_def over_strategy_def jsmap_values_def has_position_def)

theorem unknown_targets_skipped_witness:
  "\<lparr>mv_from = ''X'', mv_to = ''Y'', mv_amount = 20\<rparr>
      \<in> set (calculateRequiredMovements scenarioC_positions unknown_strategy 100)
   \<and> has_position scenarioC_positions ''X'' \<and> has_position scenarioC_positions ''Y''
   \<and> \<not> has_position scenarioC_positions ''Z''
   \<and> targetAllocations (known_targets scenarioC_positions unknown_strategy) = [(''X'', 40), (''Y'', 50)]"
  using unknown_targets_skipped[of scenarioC_positions unknown_strategy 100]
  by (simp add: plan_eval known_targets_def unknown_strategy_def has_position_def)

section \<open>Source and destination of a planned movement\<close>

lemma classify_step_disjoint:
  assumes "fst ` set (fst sd) \<inter> fst ` set (snd sd) = {}"
    and "fst e \<notin> fst ` set (fst sd) \<union> fst ` set (snd sd)"
  shows "fst ` set (fst (classify_step ps tv e sd)) \<inter> fst ` set (snd (classify_step ps tv e sd)) = {}
       \<and> fst ` set (fst (classify_step ps tv e sd)) \<union> fst ` set (snd (classify_step ps tv e sd))
            \<subseteq> insert (fst e) (fst ` set (fst sd) \<union> fst ` set (snd sd))"
  using assms by (auto simp: classify_step_def Let_def jsmap_set_key_set split: option.splits)

lemma classify_disjoint:
  "distinct (map fst es) \<Longrightarrow>
   fst ` set (fst sd) \<inter> fst ` set (snd sd) = {} \<Longrightarrow>
   (fst ` set (fst sd) \<union> fst ` set (snd sd)) \<inter> fst ` set es = {} \<Longrightarrow>
   fst ` set (fst (classify ps tv es sd)) \<inter> fst ` set (snd (classify ps tv es sd)) = {}"
proof (induction es arbitrary: sd)
  case Nil
  then show ?case by simp
next
  case (Cons e es)
  have new: "fst e \<notin> fst ` set (fst sd) \<union> fst ` set (snd sd)" using Cons.prems(3) by auto
  note st = classify_step_disjoint[OF Cons.prems(2) new, of ps tv]
  have d: "distinct (map fst es)" and ne: "fst e \<notin> fst ` set es" using Cons.prems(1) by auto
  define A where "A = fst ` set (fst (classify_step ps tv e sd)) \<union> fst ` set (snd (classify_step ps tv e sd))"
  define B where "B = fst ` set (fst sd) \<union> fst ` set (snd sd)"
  define E where "E = fst ` set es"
  have "A \<subseteq> insert (fst e) B" using st[THEN conjunct2] by (simp add: A_def B_def)
  moreover have "B \<inter> E = {}" using Cons.prems(3) by (auto simp: B_def E_def)
  moreover have "fst e \<notin> E" using ne by (simp add: E_def)
  ultimately have "A \<inter> E = {}" by auto
  then have away: "(fst ` set (fst (classify_step ps tv e sd)) \<union> fst ` set (snd (classify_step ps tv e sd)))
                \<inter> fst ` set es = {}"
    by (simp add: A_def E_def)
  show ?case using Cons.IH[OF d st[THEN conjunct1] away] by simp
qed

text \<open>
  When the target allocations form a map (no key twice), the planner takes the source
  of a movement from the surpluses and its destination from the deficits, and no
  protocol is in both: source and destination of a movement differ.
\<close>

lemma planned_movement_ends_differ:
  assumes "distinct (map fst (targetAllocations st))"
    and "m \<in> set (calculateRequiredMovements ps st tv)"
  shows "mv_from m \<noteq> mv_to m"
proof -
  define S where "S = fst ` set (surpluses_of ps st tv)"
  define D where "D = fst ` set (deficits_of ps st tv)"
  have "S \<inter> D = {}"
    unfolding S_def D_def surpluses_of_def deficits_of_def
    by (rule classify_disjoint[OF assms(1)]) simp_all
  moreover have "mv_from m \<in> S \<and> mv_to m \<in> D"
    unfolding S_def D_def using planner_movements[of ps st tv] assms(2) by blast
  ultimately show ?thesis by auto
qed

section \<open>Properties of the position update\<close>

lemma jsmap_get_set: "jsmap_get (jsmap_set k v m) k' = (if k' = k then Some v else jsmap_get m k')"
  by (induction m) (auto simp: jsmap_get_def)

lemma total_value_set:
  "jsmap_get ps k = Some p \<Longrightarrow>
   getTotalPortfolioValue (jsmap_set k p' ps) = getTotalPortfolioValue ps - currentAmount p + currentAmount p'"
  by (induction ps) (auto simp: getTotalPortfolioValue_def jsmap_values_def jsmap_get_def)

lemma add_to_amount_total:
  "getTotalPortfolioValue (add_to_amount k delta ps)
     = (if has_position ps k then getTotalPortfolioValue ps + delta else getTotalPortfolioValue ps)"
  by (auto simp: add_to_amount_def has_position_def total_value_set split: option.splits)

lemma add_to_amount_get:
  "amount_of (add_to_amount k delta ps) k'
     = (if k' = k then map_option (\<lambda>a. a + delta) (amount_of ps k) else amount_of ps k')"
  by (auto simp: add_to_amount_def amount_of_def jsmap_get_set split: option.splits)

lemma add_to_amount_has_position: "has_position (add_to_amount k delta ps) k' = has_position ps k'"
  by (auto simp: add_to_amount_def has_position_def jsmap_get_set split: option.splits)

lemma percentages_total: "getTotalPortfolioValue (updatePositionPercentages ps) = getTotalPortfolioValue ps"
  by (simp add: updatePositionPercentages_def getTotalPortfolioValue_def jsmap_values_def Let_def comp_def)

lemma amounts_kept:
  "(\<And>e. currentAmount (g e) = currentAmount (snd e)) \<Longrightarrow>
   map_option currentAmount (map_of (map (\<lambda>e. (fst e, g e)) ps) k) = map_option currentAmount (map_of ps k)"
  by (induction ps) auto

lemma percentages_get: "amount_of (updatePositionPercentages ps) k = amount_of ps k"
  by (simp add: updatePositionPercentages_def amount_of_def jsmap_get_def Let_def amounts_kept)

text \<open>
  Claim C10. When source and destination both have a position, the update after a
  completed movement takes the moved amount from the source and adds it to the
  destination (the two are distinct protocols in every movement), leaves the amount of
  every other position as it was, and so leaves the total portfolio value unchanged.
\<close>

theorem update_moves_amount:
  assumes "amount_of ps f = Some a1" and "amount_of ps t = Some a2"
  shows "(f \<noteq> t \<longrightarrow> amount_of (updatePositionAmounts f t amt ps) f = Some (a1 - amt)
                   \<and> amount_of (updatePositionAmounts f t amt ps) t = Some (a2 + amt))
       \<and> (\<forall>k. k \<noteq> f \<and> k \<noteq> t \<longrightarrow> amount_of (updatePositionAmounts f t amt ps) k = amount_of ps k)
       \<and> getTotalPortfolioValue (updatePositionAmounts f t amt ps) = getTotalPortfolioValue ps"
proof -
  have hf: "has_position ps f" and ht: "has_position ps t"
    using assms by (auto simp: amount_of_def has_position_def)
  have total: "getTotalPortfolioValue (updatePositionAmounts f t amt ps) = getTotalPortfolioValue ps"
    using hf ht
    by (simp add: updatePositionAmounts_def percentages_total add_to_amount_total add_to_amount_has_position)
  have moved: "f \<noteq> t \<longrightarrow> amount_of (updatePositionAmounts f t amt ps) f = Some (a1 - amt)
                   \<and> amount_of (updatePositionAmounts f t amt ps) t = Some (a2 + amt)"
    using assms by (simp add: updatePositionAmounts_def percentages_get add_to_amount_get)
  have frame: "\<forall>k. k \<noteq> f \<and> k \<noteq> t \<longrightarrow> amount_of (updatePositionAmounts f t amt ps) k = amount_of ps k"
    by (simp add: updatePositionAmounts_def percentages_get add_to_amount_get)
  show ?thesis using total moved frame by blast
qed

lemma scenarioC_update:
  "updatePositionAmounts ''X'' ''Y'' 30 scenarioC_positions
     = [(''X'', position_of ''X'' 40 40), (''Y'', position_of ''Y'' 60 60)]"
  by (simp add: updatePositionAmounts_def updatePositionPercentages_def add_to_amount_def
        scenarioC_positions_def position_of_def jsmap_get_def getTotalPortfolioValue_def
        jsmap_values_def bigint_div_def Let_def)

theorem update_moves_amount_witness:
  "amount_of scenarioC_positions ''X'' = Some 70 \<and> amount_of scenarioC_positions ''Y'' = Some 30
   \<and> ''X'' \<noteq> ''Y''
   \<and> amount_of (updatePositionAmounts ''X'' ''Y'' 30 scenarioC_positions) ''X'' = Some 40
   \<and> amount_of (updatePositionAmounts ''X'' ''Y'' 30 scenarioC_positions) ''Y'' = Some 60
   \<and> getTotalPortfolioValue (updatePositionAmounts ''X'' ''Y'' 30 scenarioC_positions) = 100"
proof -
  have x: "amount_of scenarioC_positions ''X'' = Some 70"
    and y: "amount_of scenarioC_positions ''Y'' = Some 30"
    by (simp_all add: amount_of_def scenarioC_positions_def position_of_def jsmap_get_def)
  have tot: "getTotalPortfolioValue scenarioC_positions = 100"
    by (simp add: getTotalPortfolioValue_def scenarioC_positions_def position_of_def jsmap_values_def)
  show ?thesis using update_moves_amount[OF x y, of 30] x y tot by simp
qed

section \<open>Properties of the risk analyzer\<close>

lemma foldl_plus: "foldl (\<lambda>acc x. acc + f x) (a::real) xs = a + sum_list (map f xs)"
  by (induction xs arbitrary: a) simp_all

lemma of_int_sum_list_map: "real_of_int (sum_list (map f xs)) = sum_list (map (\<lambda>x. real_of_int (f x)) xs)"
  by (induction xs) simp_all

lemma concentration_hhi:
  "calculateConcentrationRisk protocols = (if total_staked protocols = 0 then 0 else hhi protocols * 10)"
proof -
  have tvl: "foldl (\<lambda>sum p. sum + real_of_int (totalStaked p)) 0 protocols = real_of_int (total_staked protocols)"
    by (simp add: foldl_plus total_staked_def of_int_sum_list_map)
  show ?thesis
    unfolding calculateConcentrationRisk_def tvl Let_def
    by (simp add: foldl_plus hhi_def share_def power2_eq_square)
qed

lemma sum_list_single:
  fixes f :: "'a \<Rightarrow> 'b::comm_monoid_add"
  assumes "i < length xs" "\<forall>j < length xs. j \<noteq> i \<longrightarrow> f (xs ! j) = 0"
  shows "sum_list (map f xs) = f (xs ! i)"
proof -
  have "sum_list (map f xs) = (\<Sum>j = 0..<length xs. f (xs ! j))"
    by (simp add: sum_list_sum_nth)
  also have "\<dots> = (\<Sum>j \<in> {0..<length xs}. if j = i then f (xs ! i) else 0)"
    using assms(2) by (intro sum.cong) auto
  also have "\<dots> = f (xs ! i)"
    using assms(1) by simp
  finally show ?thesis .
qed

lemma hhi_sole_holder:
  assumes "sole_holder protocols i" "0 < total_staked protocols"
  shows "hhi protocols = 1"
proof -
  have i: "i < length protocols"
    and z: "\<forall>j < length protocols. j \<noteq> i \<longrightarrow> totalStaked (protocols ! j) = 0"
    using assms(1) by (simp_all add: sole_holder_def)
  have tot: "total_staked protocols = totalStaked (protocols ! i)"
    unfolding total_staked_def by (rule sum_list_single[OF i z])
  have "\<forall>j < length protocols. j \<noteq> i \<longrightarrow> (share protocols (protocols ! j))\<^sup>2 = 0"
    using z by (simp add: share_def)
  then have "hhi protocols = (share protocols (protocols ! i))\<^sup>2"
    unfolding hhi_def by (rule sum_list_single[OF i])
  then show ?thesis using tot assms(2) by (simp add: share_def)
qed

lemma hhi_equal_stakes:
  assumes "equal_stakes protocols" "0 < total_staked protocols"
  shows "hhi protocols = 1 / real (length protocols)"
proof -
  let ?a = "totalStaked (hd protocols)"
  let ?n = "length protocols"
  have all: "\<forall>p \<in> set protocols. totalStaked p = ?a" using assms(1) by (simp add: equal_stakes_def)
  then have "map totalStaked protocols = map (\<lambda>_. ?a) protocols" by simp
  then have "sum_list (map totalStaked protocols) = sum_list (map (\<lambda>_. ?a) protocols)"
    by (rule arg_cong)
  then have tot: "total_staked protocols = int ?n * ?a"
    by (simp only: total_staked_def sum_list_triv of_nat_id)
  then have pos: "0 < real ?n * real_of_int ?a" using assms(2)
    by (metis of_int_0_less_iff of_int_mult of_int_of_nat_eq)
  have npos: "0 < real ?n" using tot assms(2) by (cases protocols) auto
  have apos: "real_of_int ?a \<noteq> 0" using pos by auto
  have sh: "\<forall>p \<in> set protocols. (share protocols p)\<^sup>2 = (1 / real ?n)\<^sup>2"
  proof
    fix p assume "p \<in> set protocols"
    then have "totalStaked p = ?a" using all by simp
    then have "share protocols p = real_of_int ?a / (real ?n * real_of_int ?a)"
      by (simp add: share_def tot)
    also have "\<dots> = 1 / real ?n" using apos by simp
    finally show "(share protocols p)\<^sup>2 = (1 / real ?n)\<^sup>2" by simp
  qed
  then have "map (\<lambda>p. (share protocols p)\<^sup>2) protocols = map (\<lambda>_. (1 / real ?n)\<^sup>2) protocols" by simp
  then have "sum_list (map (\<lambda>p. (share protocols p)\<^sup>2) protocols)
               = sum_list (map (\<lambda>_. (1 / real ?n)\<^sup>2) protocols)"
    by (rule arg_cong)
  then have "hhi protocols = real ?n * (1 / real ?n)\<^sup>2"
    by (simp only: hhi_def sum_list_triv)
  then show ?thesis using npos by (simp add: power2_eq_square)
qed

text \<open>
  Claim C9. The concentration risk is ten times the Herfindahl-Hirschman index of the
  staked-value shares. For a non-empty protocol list with positive total staked value it
  is 10 when one protocol holds everything, 10/N when the N protocols hold equal
  amounts, hence 5 for two equal holders.
\<close>

theorem concentration_risk_hhi:
  assumes "protocols \<noteq> []" and "0 < total_staked protocols"
  shows "calculateConcentrationRisk protocols = hhi protocols * 10
       \<and> (\<forall>i. sole_holder protocols i \<longrightarrow> calculateConcentrationRisk protocols = 10)
       \<and> (equal_stakes protocols \<longrightarrow> calculateConcentrationRisk protocols = 10 / real (length protocols))
       \<and> (equal_stakes protocols \<and> length protocols = 2 \<longrightarrow> calculateConcentrationRisk protocols = 5)"
proof -
  have c: "calculateConcentrationRisk protocols = hhi protocols * 10"
    using assms(2) by (simp add: concentration_hhi)
  have s: "\<forall>i. sole_holder protocols i \<longrightarrow> calculateConcentrationRisk protocols = 10"
    using c hhi_sole_holder[OF _ assms(2)] by simp
  have e: "equal_stakes protocols \<longrightarrow> calculateConcentrationRisk protocols = 10 / real (length protocols)"
    using c hhi_equal_stakes[OF _ assms(2)] by simp
  have t: "equal_stakes protocols \<and> length protocols = 2 \<longrightarrow> calculateConcentrationRisk protocols = 5"
    using e by simp
  show ?thesis using c s e t by blast
qed

theorem concentration_risk_hhi_witness:
  "two_equal \<noteq> [] \<and> 0 < total_staked two_equal \<and> equal_stakes two_equal \<and> length two_equal = 2
   \<and> calculateConcentrationRisk two_equal = 5
   \<and> one_holds_all \<noteq> [] \<and> 0 < total_staked one_holds_all \<and> sole_holder one_holds_all 1
   \<and> calculateConcentrationRisk one_holds_all = 10"
proof -
  have a: "two_equal \<noteq> []" and b: "0 < total_staked two_equal"
    and c: "equal_stakes two_equal" and d: "length two_equal = 2"
    by (simp_all add: two_equal_def total_staked_def equal_stakes_def staked_protocol_def)
  have a': "one_holds_all \<noteq> []" and b': "0 < total_staked one_holds_all"
    by (simp_all add: one_holds_all_def total_staked_def staked_protocol_def)
  have c': "sole_holder one_holds_all 1"
    by (simp add: one_holds_all_def sole_holder_def staked_protocol_def less_Suc_eq)
  note th1 = concentration_risk_hhi[OF a b]
  note th2 = concentration_risk_hhi[OF a' b']
  have r1: "calculateConcentrationRisk two_equal = 5"
    by (rule mp[OF th1[THEN conjunct2, THEN conjunct2, THEN conjunct2]]) (simp add: c d)
  have r2: "calculateConcentrationRisk one_holds_all = 10"
    by (rule mp[OF th2[THEN conjunct2, THEN conjunct1, THEN spec, of 1]]) (rule c')
  show ?thesis using a b c d a' b' c' r1 r2 by simp
qed

section \<open>Properties of the decision gate\<close>

lemma rebalance_need_sum:
  "calculateRebalanceNeed ps st
     = sum_list (map (\<lambda>e. \<bar>snd e - current_percentage_of ps (fst e)\<bar>) (targetAllocations st)) / 100"
  by (simp add: calculateRebalanceNeed_def Let_def foldl_plus current_percentage_of_def)

lemma rebalance_need_on_target: "on_target ps st \<Longrightarrow> calculateRebalanceNeed ps st = 0"
proof -
  assume "on_target ps st"
  then have "\<forall>e \<in> set (targetAllocations st). \<bar>snd e - current_percentage_of ps (fst e)\<bar> = 0"
    by (simp add: on_target_def)
  then have "map (\<lambda>e. \<bar>snd e - current_percentage_of ps (fst e)\<bar>) (targetAllocations st)
               = map (\<lambda>_. 0) (targetAllocations st)"
    by simp
  then have "sum_list (map (\<lambda>e. \<bar>snd e - current_percentage_of ps (fst e)\<bar>) (targetAllocations st))
               = sum_list (map (\<lambda>_. 0::real) (targetAllocations st))"
    by (rule arg_cong)
  then show ?thesis by (simp add: rebalance_need_sum)
qed

text \<open>
  Claim C8, amended. With the active strategy as the candidate, the gate returns false
  when the store holds every protocol of that strategy at exactly its target percentage,
  for then the need is 0, and the rebalance threshold is not negative.
\<close>

theorem gate_closed_on_target:
  assumes "on_target (positions s) (currentStrategy s)"
    and "0 \<le> rebalanceThreshold (currentStrategy s)"
  shows "calculateRebalanceNeed (positions s) (currentStrategy s) = 0
       \<and> fst (shouldRebalance env (currentStrategy s) s) = False"
  using assms rebalance_need_on_target[OF assms(1)]
  by (simp add: shouldRebalance_def checkGasConditions_def Let_def)

lemmas gate_eval = shouldRebalance_def checkGasConditions_def checkRiskThresholds_def
  calculateRebalanceNeed_def state_with_def default_strategy_def strategy_with_def
  position_of_def idle_env_def jsmap_get_def or_else_def Let_def

text \<open>
  Claim C8 as stated fails: the need is measured against the holdings, not against the
  active strategy. Over four equal holdings the default strategy, offered as its own
  candidate, has need 0.2 and the gate returns true.
\<close>

theorem gate_self_counterexample:
  "calculateRebalanceNeed (positions equal_holdings) (currentStrategy equal_holdings) = 0.2
   \<and> fst (shouldRebalance idle_env (currentStrategy equal_holdings) equal_holdings) = True"
  by (simp add: gate_eval equal_holdings_def)

theorem gate_closed_on_target_witness:
  "on_target (positions target_holdings) (currentStrategy target_holdings)
   \<and> 0 \<le> rebalanceThreshold (currentStrategy target_holdings)
   \<and> fst (shouldRebalance idle_env (currentStrategy target_holdings) target_holdings) = False"
proof -
  have a: "on_target (positions target_holdings) (currentStrategy target_holdings)"
    by (simp add: on_target_def current_percentage_of_def gate_eval target_holdings_def)
  have b: "0 \<le> rebalanceThreshold (currentStrategy target_holdings)"
    by (simp add: gate_eval target_holdings_def)
  show ?thesis using gate_closed_on_target[OF a b, of idle_env] a b by simp
qed

section \<open>Properties of the executor\<close>

lemma set_status_fields [simp]:
  "transactionObjects (set_status a st s) = (transactionObjects s)[a := (transactionObjects s ! a)\<lparr>status := st\<rparr>]"
  "statusWrites (set_status a st s) = statusWrites s @ [(a, st)]"
  "serviceCalls (set_status a st s) = serviceCalls s"
  "positions (set_status a st s) = positions s"
  "pendingTransactions (set_status a st s) = pendingTransactions s"
  "currentStrategy (set_status a st s) = currentStrategy s"
  by (simp_all add: set_status_def)

lemma set_txHash_fields [simp]:
  "transactionObjects (set_txHash a h s) = (transactionObjects s)[a := (transactionObjects s ! a)\<lparr>txHash := Some h\<rparr>]"
  "statusWrites (set_txHash a h s) = statusWrites s"
  "serviceCalls (set_txHash a h s) = serviceCalls s"
  "positions (set_txHash a h s) = positions s"
  "pendingTransactions (set_txHash a h s) = pendingTransactions s"
  "currentStrategy (set_txHash a h s) = currentStrategy s"
  by (simp_all add: set_txHash_def)

lemma executeMovement_summary:
  assumes "a < length (transactionObjects s)"
  shows "statusWrites (executeMovement env m a s)
           = statusWrites s @ [(a, Executing), (a, fst (movement_outcome env m (serviceCalls s)))]"
    and "serviceCalls (executeMovement env m a s) = serviceCalls s @ snd (movement_outcome env m (serviceCalls s))"
    and "length (transactionObjects (executeMovement env m a s)) = length (transactionObjects s)"
    and "status (transactionObjects (executeMovement env m a s) ! a) = fst (movement_outcome env m (serviceCalls s))"
    and "\<forall>b. b \<noteq> a \<longrightarrow> transactionObjects (executeMovement env m a s) ! b = transactionObjects s ! b"
    and "pendingTransactions (executeMovement env m a s) = pendingTransactions s"
    and "currentStrategy (executeMovement env m a s) = currentStrategy s"
    and "fst (movement_outcome env m (serviceCalls s)) \<noteq> Completed \<longrightarrow> positions (executeMovement env m a s) = positions s"
  using assms
  by (simp_all add: executeMovement_def movement_outcome_def call_unstake_def call_stake_def call_wait_def Let_def)

lemma executeMovements_step:
  "executeMovements env (m # ms) txs s
     = executeMovements env ms (txs @ [length (transactionObjects s)]) (attempt env m s)"
  by (simp add: attempt_def Let_def)

lemma attempt_summary:
  fixes env m s
  defines "n \<equiv> length (transactionObjects s)"
    and "out \<equiv> movement_outcome env m (serviceCalls s @ [GetGasPrice])"
  shows "statusWrites (attempt env m s) = statusWrites s @ [(n, Pending), (n, Executing), (n, fst out)]"
    and "serviceCalls (attempt env m s) = serviceCalls s @ GetGasPrice # snd out"
    and "length (transactionObjects (attempt env m s)) = Suc n"
    and "status (transactionObjects (attempt env m s) ! n) = fst out"
    and "take n (transactionObjects (attempt env m s)) = transactionObjects s"
    and "fst out \<noteq> Completed \<longrightarrow> positions (attempt env m s) = positions s"
    and "currentStrategy (attempt env m s) = currentStrategy s"
proof -
  define s3 where "s3 =
     s\<lparr>serviceCalls := serviceCalls s @ [GetGasPrice],
       transactionObjects := transactionObjects s @
         [\<lparr>txId = newTxId env (serviceCalls s), fromProtocol = mv_from m, toProtocol = mv_to m,
           amount = mv_amount m, txGasPrice = getGasPrice env (serviceCalls s), estimatedGas = 0,
           status = Pending, txHash = None, timestamp = newDate env (serviceCalls s @ [GetGasPrice])\<rparr>],
       statusWrites := statusWrites s @ [(n, Pending)],
       pendingTransactions := jsmap_set (newTxId env (serviceCalls s)) n (pendingTransactions s)\<rparr>"
  have att: "attempt env m s = executeMovement env m n s3"
    by (simp add: attempt_def s3_def n_def Let_def)
  have n3: "n < length (transactionObjects s3)" by (simp add: s3_def n_def)
  have calls3: "serviceCalls s3 = serviceCalls s @ [GetGasPrice]" by (simp add: s3_def)
  note sm = executeMovement_summary[OF n3, of env m, unfolded calls3, folded out_def]
  show "statusWrites (attempt env m s) = statusWrites s @ [(n, Pending), (n, Executing), (n, fst out)]"
    using sm(1) by (simp add: att s3_def)
  show "serviceCalls (attempt env m s) = serviceCalls s @ GetGasPrice # snd out"
    using sm(2) by (simp add: att)
  show len: "length (transactionObjects (attempt env m s)) = Suc n"
    using sm(3) by (simp add: att s3_def n_def)
  show "status (transactionObjects (attempt env m s) ! n) = fst out"
    using sm(4) by (simp add: att)
  show "take n (transactionObjects (attempt env m s)) = transactionObjects s"
  proof (rule nth_equalityI)
    show "length (take n (transactionObjects (attempt env m s))) = length (transactionObjects s)"
      using len by (simp add: n_def)
  next
    fix b assume "b < length (take n (transactionObjects (attempt env m s)))"
    then have b: "b < n" by simp
    then have "transactionObjects (attempt env m s) ! b = transactionObjects s3 ! b"
      using sm(5) by (simp add: att)
    also have "\<dots> = transactionObjects s ! b" using b by (simp add: s3_def n_def nth_append)
    finally show "take n (transactionObjects (attempt env m s)) ! b = transactionObjects s ! b"
      using b by simp
  qed
  show "fst out \<noteq> Completed \<longrightarrow> positions (attempt env m s) = positions s"
    using sm(8) by (simp add: att s3_def)
  show "currentStrategy (attempt env m s) = currentStrategy s"
    using sm(7) by (simp add: att s3_def)
qed

lemma movement_outcome_terminal: "terminal (fst (movement_outcome env m h))"
  by (simp add: movement_outcome_def terminal_def Let_def)

lemma movement_outcome_calls:
  "\<exists>rest. snd (movement_outcome env m h) = ExecuteUnstake (mv_from m) (mv_amount m) # rest"
  by (simp add: movement_outcome_def Let_def)

lemma movement_outcome_refused:
  "\<not> truthy (executeUnstake env h (mv_from m) (mv_amount m)) \<Longrightarrow>
   movement_outcome env m h = (Failed, [ExecuteUnstake (mv_from m) (mv_amount m)])"
  by (simp add: movement_outcome_def Let_def)

lemma history_of_append: "history_of a (ws @ ws') = history_of a ws @ history_of a ws'"
  by (simp add: history_of_def)

lemma history_of_attempt:
  "history_of a [] = []"
  "history_of a (w # ws) = (if fst w = a then snd w # history_of a ws else history_of a ws)"
  by (simp_all add: history_of_def)

lemma take_nth_eq: "take (Suc n) xs = ys \<Longrightarrow> n < length xs \<Longrightarrow> xs ! n = ys ! n"
  by (metis lessI nth_take)

lemma executeMovements_invariant:
  "length (transactionObjects (snd (executeMovements env ms txs s))) = length (transactionObjects s) + length ms
   \<and> take (length (transactionObjects s)) (transactionObjects (snd (executeMovements env ms txs s)))
        = transactionObjects s
   \<and> (\<exists>new. statusWrites (snd (executeMovements env ms txs s)) = statusWrites s @ new
         \<and> writes_ok (length (transactionObjects s)) (length ms)
              (transactionObjects (snd (executeMovements env ms txs s))) new)
   \<and> fst (executeMovements env ms txs s)
        = txs @ [length (transactionObjects s) ..< length (transactionObjects s) + length ms]
   \<and> currentStrategy (snd (executeMovements env ms txs s)) = currentStrategy s"
proof (induction ms arbitrary: txs s)
  case Nil
  then show ?case by (simp add: writes_ok_def history_of_def)
next
  case (Cons m ms)
  let ?n = "length (transactionObjects s)"
  let ?s1 = "attempt env m s"
  let ?txs1 = "txs @ [?n]"
  let ?s' = "snd (executeMovements env ms ?txs1 ?s1)"
  let ?out = "movement_outcome env m (serviceCalls s @ [GetGasPrice])"
  note a = attempt_summary[where env=env and m=m and s=s]
  have step: "executeMovements env (m # ms) txs s = executeMovements env ms ?txs1 ?s1"
    by (rule executeMovements_step)
  from Cons.IH[of ?txs1 ?s1] obtain new2 where
    len: "length (transactionObjects ?s') = Suc ?n + length ms"
    and pre: "take (Suc ?n) (transactionObjects ?s') = transactionObjects ?s1"
    and wr: "statusWrites ?s' = statusWrites ?s1 @ new2"
    and ok: "writes_ok (Suc ?n) (length ms) (transactionObjects ?s') new2"
    and res: "fst (executeMovements env ms ?txs1 ?s1) = ?txs1 @ [Suc ?n ..< Suc ?n + length ms]"
    and cs: "currentStrategy ?s' = currentStrategy ?s1"
    unfolding a(3) by blast
  have c1: "length (transactionObjects ?s') = ?n + length (m # ms)" using len by simp
  have "take ?n (take (Suc ?n) (transactionObjects ?s')) = take ?n (transactionObjects ?s1)"
    using pre by simp
  then have c2: "take ?n (transactionObjects ?s') = transactionObjects s"
    using a(5) by (simp add: min_def)
  have atn: "transactionObjects ?s' ! ?n = transactionObjects ?s1 ! ?n"
    by (rule take_nth_eq[OF pre]) (simp add: len)
  then have stn: "status (transactionObjects ?s' ! ?n) = fst ?out" using a(4) by simp
  let ?new = "[(?n, Pending), (?n, Executing), (?n, fst ?out)] @ new2"
  have c3: "statusWrites ?s' = statusWrites s @ ?new" using wr a(1) by simp
  have old: "\<forall>b < ?n. history_of b ?new = []"
    using ok by (simp add: writes_ok_def history_of_append history_of_attempt)
  have fresh: "\<forall>b. ?n \<le> b \<and> b < ?n + length (m # ms) \<longrightarrow>
                 history_of b ?new = [Pending, Executing, status (transactionObjects ?s' ! b)]
                 \<and> terminal (status (transactionObjects ?s' ! b))"
  proof (intro allI impI)
    fix b assume b: "?n \<le> b \<and> b < ?n + length (m # ms)"
    show "history_of b ?new = [Pending, Executing, status (transactionObjects ?s' ! b)]
                 \<and> terminal (status (transactionObjects ?s' ! b))"
    proof (cases "b = ?n")
      case True
      have "history_of ?n new2 = []" using ok by (simp add: writes_ok_def)
      then show ?thesis using True stn movement_outcome_terminal[of env m]
        by (simp add: history_of_append history_of_attempt)
    next
      case False
      then have "Suc ?n \<le> b \<and> b < Suc ?n + length ms" using b by simp
      then have "history_of b new2 = [Pending, Executing, status (transactionObjects ?s' ! b)]
                 \<and> terminal (status (transactionObjects ?s' ! b))"
        using ok by (simp add: writes_ok_def)
      then show ?thesis using False by (simp add: history_of_append history_of_attempt)
    qed
  qed
  have c4: "writes_ok ?n (length (m # ms)) (transactionObjects ?s') ?new"
    unfolding writes_ok_def using old fresh by blast
  have u: "[?n ..< ?n + length (m # ms)] = ?n # [Suc ?n ..< Suc ?n + length ms]"
    by (subst upt_rec) (simp del: upt_Suc)
  have c5: "fst (executeMovements env ms ?txs1 ?s1) = txs @ [?n ..< ?n + length (m # ms)]"
    unfolding u using res by (simp del: upt_Suc)
  have c6: "currentStrategy ?s' = currentStrategy s" using cs a(7) by simp
  show ?case unfolding step using c1 c2 c3 c4 c5 c6 by blast
qed

lemma executeMovements_state: "snd (executeMovements env ms txs s) = snd (executeMovements env ms txs' s)"
proof (induction ms arbitrary: txs txs' s)
  case Nil
  then show ?case by simp
next
  case (Cons m ms)
  show ?case unfolding executeMovements_step by (rule Cons.IH)
qed

lemma executeMovements_append:
  "snd (executeMovements env (ms1 @ ms2) txs s)
     = snd (executeMovements env ms2 [] (snd (executeMovements env ms1 [] s)))"
proof (induction ms1 arbitrary: txs s)
  case Nil
  show ?case using executeMovements_state[of env ms2 txs s "[]"] by simp
next
  case (Cons m ms1)
  have "snd (executeMovements env ((m # ms1) @ ms2) txs s)
          = snd (executeMovements env (ms1 @ ms2) (txs @ [length (transactionObjects s)]) (attempt env m s))"
    by (simp only: append_Cons executeMovements_step)
  also have "\<dots> = snd (executeMovements env ms2 [] (snd (executeMovements env ms1 [] (attempt env m s))))"
    by (rule Cons.IH)
  also have "snd (executeMovements env ms1 [] (attempt env m s)) = snd (executeMovements env (m # ms1) [] s)"
    unfolding executeMovements_step by (rule executeMovements_state)
  finally show ?case .
qed

lemma state_before_Suc:
  assumes "k < length ms"
  shows "state_before env ms s (Suc k) = attempt env (ms ! k) (state_before env ms s k)"
proof -
  have "take (Suc k) ms = take k ms @ [ms ! k]" using assms by (rule take_Suc_conv_app_nth)
  then show ?thesis
    unfolding state_before_def by (simp only: executeMovements_append attempt_def)
qed

lemma state_before_objects:
  "k \<le> length ms \<Longrightarrow>
   length (transactionObjects (state_before env ms s k)) = length (transactionObjects s) + k"
  using executeMovements_invariant[of env "take k ms" "[]" s] by (simp add: state_before_def min_def)

lemma state_after:
  "snd (executeMovements env ms [] s)
     = snd (executeMovements env (drop k ms) [] (state_before env ms s k))"
  using executeMovements_append[of env "take k ms" "drop k ms" "[]" s] by (simp add: state_before_def)

lemma calls_during_attempt:
  assumes "k < length ms"
  shows "calls_during env ms s k
           = GetGasPrice # snd (movement_outcome env (ms ! k) (serviceCalls (state_before env ms s k) @ [GetGasPrice]))"
  by (simp add: calls_during_def state_before_Suc[OF assms] attempt_summary(2))

lemma returned_status:
  assumes "k < length ms"
  shows "status (fst (run_movements env ms s) ! k)
           = fst (movement_outcome env (ms ! k) (serviceCalls (state_before env ms s k) @ [GetGasPrice]))"
    and "length (fst (run_movements env ms s)) = length ms"
proof -
  let ?n = "length (transactionObjects s)"
  let ?s' = "snd (executeMovements env ms [] s)"
  let ?sk = "state_before env ms s k"
  let ?sk1 = "state_before env ms s (Suc k)"
  have addrs: "fst (executeMovements env ms [] s) = [?n ..< ?n + length ms]"
    using executeMovements_invariant[of env ms "[]" s] by simp
  then have run: "fst (run_movements env ms s) = map (\<lambda>a. transactionObjects ?s' ! a) [?n ..< ?n + length ms]"
    by (simp add: run_movements_def case_prod_beta)
  show "length (fst (run_movements env ms s)) = length ms" using run by simp
  have obj: "fst (run_movements env ms s) ! k = transactionObjects ?s' ! (?n + k)"
    using run assms by simp
  have lk: "length (transactionObjects ?sk) = ?n + k"
    using assms by (simp add: state_before_objects)
  have lk1: "length (transactionObjects ?sk1) = Suc (?n + k)"
    using assms by (simp add: state_before_objects)
  have "take (length (transactionObjects ?sk1)) (transactionObjects ?s') = transactionObjects ?sk1"
    using executeMovements_invariant[of env "drop (Suc k) ms" "[]" ?sk1] state_after[of env ms s "Suc k"]
    by simp
  then have pre: "take (Suc (?n + k)) (transactionObjects ?s') = transactionObjects ?sk1"
    using lk1 by simp
  have "?n + k < length (transactionObjects ?s')"
    using executeMovements_invariant[of env ms "[]" s] assms by simp
  then have "transactionObjects ?s' ! (?n + k) = transactionObjects ?sk1 ! (?n + k)"
    by (rule take_nth_eq[OF pre])
  also have "status \<dots> = fst (movement_outcome env (ms ! k) (serviceCalls ?sk @ [GetGasPrice]))"
    using attempt_summary(4)[where env=env and m="ms ! k" and s="?sk"] lk by (simp add: state_before_Suc[OF assms])
  finally show "status (fst (run_movements env ms s) ! k)
           = fst (movement_outcome env (ms ! k) (serviceCalls ?sk @ [GetGasPrice]))"
    using obj by simp
qed

lemma executeRebalance_run:
  "executeRebalance env newStrategy s
     = (fst (run_movements env (calculateRequiredMovements (positions s) newStrategy (getTotalPortfolioValue (positions s))) s),
        (snd (run_movements env (calculateRequiredMovements (positions s) newStrategy (getTotalPortfolioValue (positions s))) s))
          \<lparr>currentStrategy := newStrategy\<rparr>)"
  by (simp add: executeRebalance_def run_movements_def Let_def case_prod_beta)

text \<open>
  Claim C3. In every list of movements that the executor runs, a movement whose withdrawal
  submission gets no reference from the settlement layer has its transaction marked
  failed, no deposit is submitted for it (the only calls made for it are the gas price
  query and the withdrawal), and every later movement of the list is attempted all the
  same: its withdrawal is submitted, and one transaction is returned per movement.
\<close>

theorem refused_withdrawal_is_local:
  assumes "i < length ms" and "withdrawal_refused env ms s i"
  shows "status (fst (run_movements env ms s) ! i) = Failed
       \<and> calls_during env ms s i = [GetGasPrice, ExecuteUnstake (mv_from (ms ! i)) (mv_amount (ms ! i))]
       \<and> (\<forall>c \<in> set (calls_during env ms s i). \<not> is_stake c)
       \<and> length (fst (run_movements env ms s)) = length ms
       \<and> (\<forall>j. i < j \<and> j < length ms \<longrightarrow>
             take 2 (calls_during env ms s j)
               = [GetGasPrice, ExecuteUnstake (mv_from (ms ! j)) (mv_amount (ms ! j))])"
proof -
  let ?h = "serviceCalls (state_before env ms s i) @ [GetGasPrice]"
  have out: "movement_outcome env (ms ! i) ?h = (Failed, [ExecuteUnstake (mv_from (ms ! i)) (mv_amount (ms ! i))])"
    using assms(2) by (intro movement_outcome_refused) (simp add: withdrawal_refused_def)
  have c1: "status (fst (run_movements env ms s) ! i) = Failed"
    using returned_status(1)[OF assms(1), of env s] out by simp
  have c2: "calls_during env ms s i = [GetGasPrice, ExecuteUnstake (mv_from (ms ! i)) (mv_amount (ms ! i))]"
    using calls_during_attempt[OF assms(1), of env s] out by simp
  have c3: "\<forall>c \<in> set (calls_during env ms s i). \<not> is_stake c"
    unfolding c2 by (simp add: is_stake_def)
  have c4: "length (fst (run_movements env ms s)) = length ms"
    by (rule returned_status(2)[OF assms(1)])
  have c5: "\<forall>j. i < j \<and> j < length ms \<longrightarrow>
             take 2 (calls_during env ms s j)
               = [GetGasPrice, ExecuteUnstake (mv_from (ms ! j)) (mv_amount (ms ! j))]"
  proof (intro allI impI)
    fix j assume j: "i < j \<and> j < length ms"
    then have jl: "j < length ms" by simp
    obtain rest where "snd (movement_outcome env (ms ! j) (serviceCalls (state_before env ms s j) @ [GetGasPrice]))
                         = ExecuteUnstake (mv_from (ms ! j)) (mv_amount (ms ! j)) # rest"
      using movement_outcome_calls by blast
    then show "take 2 (calls_during env ms s j)
               = [GetGasPrice, ExecuteUnstake (mv_from (ms ! j)) (mv_amount (ms ! j))]"
      using calls_during_attempt[OF jl, of env s] by (simp add: numeral_2_eq_2)
  qed
  show ?thesis using c1 c2 c3 c4 c5 by blast
qed

text \<open>
  Claim C7. A rebalance writes the status of each transaction it creates three times:
  pending, executing, then completed or failed, which is a path of the state machine
  that ends in a terminal state; no transition leaves a terminal state; and the
  transactions of earlier rebalances, the terminal ones among them, are neither
  written to nor changed.
\<close>

theorem status_follows_state_machine:
  "(\<exists>new. statusWrites (snd (executeRebalance env newStrategy s)) = statusWrites s @ new
      \<and> (\<forall>a < length (transactionObjects s).
             history_of a new = []
             \<and> transactionObjects (snd (executeRebalance env newStrategy s)) ! a = transactionObjects s ! a)
      \<and> (\<forall>a. length (transactionObjects s) \<le> a
              \<and> a < length (transactionObjects (snd (executeRebalance env newStrategy s))) \<longrightarrow>
             history_of a new
               = [Pending, Executing, status (transactionObjects (snd (executeRebalance env newStrategy s)) ! a)]
             \<and> successively status_step (history_of a new)
             \<and> terminal (status (transactionObjects (snd (executeRebalance env newStrategy s)) ! a))))
   \<and> fst (executeRebalance env newStrategy s)
        = drop (length (transactionObjects s)) (transactionObjects (snd (executeRebalance env newStrategy s)))
   \<and> (\<forall>st st'. terminal st \<longrightarrow> \<not> status_step st st')"
proof -
  let ?ms = "calculateRequiredMovements (positions s) newStrategy (getTotalPortfolioValue (positions s))"
  let ?s1 = "snd (executeMovements env ?ms [] s)"
  let ?n = "length (transactionObjects s)"
  have objs: "transactionObjects (snd (executeRebalance env newStrategy s)) = transactionObjects ?s1"
    and wrs: "statusWrites (snd (executeRebalance env newStrategy s)) = statusWrites ?s1"
    and res: "fst (executeRebalance env newStrategy s) = map (\<lambda>a. transactionObjects ?s1 ! a) (fst (executeMovements env ?ms [] s))"
    by (simp_all add: executeRebalance_def Let_def case_prod_beta)
  from executeMovements_invariant[of env ?ms "[]" s] obtain new where
    len: "length (transactionObjects ?s1) = ?n + length ?ms"
    and pre: "take ?n (transactionObjects ?s1) = transactionObjects s"
    and wr: "statusWrites ?s1 = statusWrites s @ new"
    and ok: "writes_ok ?n (length ?ms) (transactionObjects ?s1) new"
    and addrs: "fst (executeMovements env ?ms [] s) = [?n ..< ?n + length ?ms]"
    by auto
  have old: "\<forall>a < ?n. history_of a new = [] \<and> transactionObjects ?s1 ! a = transactionObjects s ! a"
  proof (intro allI impI)
    fix a assume a: "a < ?n"
    have "take ?n (transactionObjects ?s1) ! a = transactionObjects ?s1 ! a" using a by simp
    then show "history_of a new = [] \<and> transactionObjects ?s1 ! a = transactionObjects s ! a"
      using ok a pre by (simp add: writes_ok_def)
  qed
  have fresh: "\<forall>a. ?n \<le> a \<and> a < length (transactionObjects ?s1) \<longrightarrow>
             history_of a new = [Pending, Executing, status (transactionObjects ?s1 ! a)]
             \<and> successively status_step (history_of a new)
             \<and> terminal (status (transactionObjects ?s1 ! a))"
  proof (intro allI impI)
    fix a assume a: "?n \<le> a \<and> a < length (transactionObjects ?s1)"
    then have h: "history_of a new = [Pending, Executing, status (transactionObjects ?s1 ! a)]"
      and t: "terminal (status (transactionObjects ?s1 ! a))"
      using ok len by (simp_all add: writes_ok_def)
    have "successively status_step [Pending, Executing, status (transactionObjects ?s1 ! a)]"
      using t by (auto simp: terminal_def)
    then show "history_of a new = [Pending, Executing, status (transactionObjects ?s1 ! a)]
             \<and> successively status_step (history_of a new)
             \<and> terminal (status (transactionObjects ?s1 ! a))"
      using h t by simp
  qed
  have ret: "map (\<lambda>a. transactionObjects ?s1 ! a) [?n ..< ?n + length ?ms] = drop ?n (transactionObjects ?s1)"
    using len by (intro nth_equalityI) simp_all
  have noexit: "\<forall>st st'. terminal st \<longrightarrow> \<not> status_step st st'"
    by (auto simp: terminal_def)
  show ?thesis
    unfolding objs wrs res addrs ret using wr old fresh noexit by blast
qed

lemmas executor_eval = executeMovement_def call_unstake_def call_stake_def call_wait_def
  set_status_def set_txHash_def truthy_def refusing_env_def Let_def

lemma three_plan:
  "calculateRequiredMovements (positions with_history) three_targets (getTotalPortfolioValue (positions with_history))
     = three_movements"
  by (simp add: with_history_def three_holdings_def three_targets_def three_movements_def state_with_def
        getTotalPortfolioValue_def jsmap_values_def calculateRequiredMovements_def
        strategy_with_def position_of_def classify_step_def jsmap_get_def jsmap_delete_def
        math_round_def bigint_div_def Let_def)

lemma three_run_statuses:
  "map status (fst (run_movements refusing_env three_movements with_history)) = [Failed, Completed]"
  by (simp add: run_movements_def three_movements_def with_history_def three_holdings_def state_with_def
        executor_eval)

lemma three_run_writes:
  "statusWrites (snd (run_movements refusing_env three_movements with_history))
     = statusWrites with_history @ [(1, Pending), (1, Executing), (1, Failed), (2, Pending), (2, Executing), (2, Completed)]"
  by (simp add: run_movements_def three_movements_def with_history_def three_holdings_def state_with_def
        executor_eval)

lemma three_run_objects:
  "map status (transactionObjects (snd (run_movements refusing_env three_movements with_history)))
     = [Completed, Failed, Completed]"
  by (simp add: run_movements_def three_movements_def with_history_def three_holdings_def state_with_def
        executor_eval old_transaction_def)

theorem refused_withdrawal_is_local_witness:
  "0 < length three_movements
   \<and> withdrawal_refused refusing_env three_movements with_history 0
   \<and> status (fst (run_movements refusing_env three_movements with_history) ! 0) = Failed
   \<and> calls_during refusing_env three_movements with_history 0 = [GetGasPrice, ExecuteUnstake ''X'' 10]
   \<and> ExecuteUnstake ''X'' 10 \<in> set (calls_during refusing_env three_movements with_history 0)
   \<and> \<not> is_stake (ExecuteUnstake ''X'' 10)
   \<and> length (fst (run_movements refusing_env three_movements with_history)) = 2
   \<and> take 2 (calls_during refusing_env three_movements with_history 1) = [GetGasPrice, ExecuteUnstake ''X'' 20]
   \<and> map status (fst (run_movements refusing_env three_movements with_history)) = [Failed, Completed]"
proof -
  have a: "0 < length three_movements" by (simp add: three_movements_def)
  have b: "withdrawal_refused refusing_env three_movements with_history 0"
    by (simp add: withdrawal_refused_def state_before_def three_movements_def with_history_def
          three_holdings_def state_with_def refusing_env_def truthy_def)
  note th = refused_withdrawal_is_local[OF a b]
  have c: "status (fst (run_movements refusing_env three_movements with_history) ! 0) = Failed"
    using th by (rule conjunct1)
  have d: "calls_during refusing_env three_movements with_history 0 = [GetGasPrice, ExecuteUnstake ''X'' 10]"
    using th[THEN conjunct2, THEN conjunct1] by (simp add: three_movements_def)
  have e: "length (fst (run_movements refusing_env three_movements with_history)) = 2"
    using th[THEN conjunct2, THEN conjunct2, THEN conjunct2, THEN conjunct1] by (simp add: three_movements_def)
  have "0 < (1::nat) \<and> 1 < length three_movements \<longrightarrow>
          take 2 (calls_during refusing_env three_movements with_history 1)
            = [GetGasPrice, ExecuteUnstake (mv_from (three_movements ! 1)) (mv_amount (three_movements ! 1))]"
    using th[THEN conjunct2, THEN conjunct2, THEN conjunct2, THEN conjunct2] by (rule spec)
  then have f: "take 2 (calls_during refusing_env three_movements with_history 1) = [GetGasPrice, ExecuteUnstake ''X'' 20]"
    by (simp add: three_movements_def)
  show ?thesis using a b c d e f three_run_statuses by (simp add: is_stake_def)
qed

theorem status_follows_state_machine_witness:
  "length (transactionObjects with_history) = 1
   \<and> terminal (status (transactionObjects with_history ! 0))
   \<and> transactionObjects (snd (executeRebalance refusing_env three_targets with_history)) ! 0
        = transactionObjects with_history ! 0
   \<and> length (transactionObjects (snd (executeRebalance refusing_env three_targets with_history))) = 3
   \<and> history_of 0 (new_writes with_history (snd (executeRebalance refusing_env three_targets with_history))) = []
   \<and> history_of 1 (new_writes with_history (snd (executeRebalance refusing_env three_targets with_history)))
        = [Pending, Executing, Failed]
   \<and> history_of 2 (new_writes with_history (snd (executeRebalance refusing_env three_targets with_history)))
        = [Pending, Executing, Completed]
   \<and> map status (fst (executeRebalance refusing_env three_targets with_history)) = [Failed, Completed]"
proof -
  let ?s = "with_history"
  let ?s' = "snd (executeRebalance refusing_env three_targets with_history)"
  have reb: "executeRebalance refusing_env three_targets with_history
               = (fst (run_movements refusing_env three_movements with_history),
                  (snd (run_movements refusing_env three_movements with_history))\<lparr>currentStrategy := three_targets\<rparr>)"
    by (simp only: executeRebalance_run three_plan)
  have sts: "map status (transactionObjects ?s') = [Completed, Failed, Completed]"
    using three_run_objects by (simp add: reb)
  then have "length (map status (transactionObjects ?s')) = 3" by simp
  then have len': "length (transactionObjects ?s') = 3" by simp
  have st1: "status (transactionObjects ?s' ! 1) = Failed"
    using arg_cong[OF sts, of "\<lambda>l. l ! 1"] len' by simp
  have st2: "status (transactionObjects ?s' ! 2) = Completed"
    using arg_cong[OF sts, of "\<lambda>l. l ! 2"] len' by simp
  have len: "length (transactionObjects ?s) = 1"
    and t0: "terminal (status (transactionObjects ?s ! 0))"
    by (simp_all add: with_history_def old_transaction_def terminal_def)
  from status_follows_state_machine[of refusing_env three_targets with_history] obtain new where
    wr: "statusWrites ?s' = statusWrites ?s @ new"
    and old: "\<forall>a < length (transactionObjects ?s).
                history_of a new = [] \<and> transactionObjects ?s' ! a = transactionObjects ?s ! a"
    and fresh: "\<forall>a. length (transactionObjects ?s) \<le> a \<and> a < length (transactionObjects ?s') \<longrightarrow>
                history_of a new = [Pending, Executing, status (transactionObjects ?s' ! a)]
                \<and> successively status_step (history_of a new)
                \<and> terminal (status (transactionObjects ?s' ! a))"
    and ret: "fst (executeRebalance refusing_env three_targets with_history)
                = drop (length (transactionObjects ?s)) (transactionObjects ?s')"
    by blast
  have nw: "new_writes ?s ?s' = new" using wr by (simp add: new_writes_def)
  have h0: "history_of 0 new = [] \<and> transactionObjects ?s' ! 0 = transactionObjects ?s ! 0"
    using old[THEN spec, of 0] len by simp
  have h1: "history_of 1 new = [Pending, Executing, Failed]"
    using fresh[THEN spec, of 1] len len' st1 by simp
  have h2: "history_of 2 new = [Pending, Executing, Completed]"
    using fresh[THEN spec, of 2] len len' st2 by simp
  have "map status (fst (executeRebalance refusing_env three_targets with_history))
          = drop 1 (map status (transactionObjects ?s'))"
    unfolding ret len by (simp add: drop_map)
  then have r: "map status (fst (executeRebalance refusing_env three_targets with_history)) = [Failed, Completed]"
    unfolding sts by simp
  show ?thesis using len t0 len' h0 h1 h2 r unfolding nw by simp
qed

section \<open>Properties of the allocation optimizer\<close>

lemma jsmap_set_new: "k \<notin> fst ` set m \<Longrightarrow> jsmap_set k v m = m @ [(k, v)]"
  by (induction m) auto

lemma allocate_clamped:
  "distinct (map fst es) \<Longrightarrow> fst ` set es \<inter> fst ` set acc = {} \<Longrightarrow>
   allocate tol risks es remaining acc = acc @ clamped tol risks es remaining"
proof (induction es arbitrary: remaining acc)
  case Nil
  then show ?case by simp
next
  case (Cons e es)
  let ?a = "math_min (rawAllocation tol risks e) remaining"
  have new: "fst e \<notin> fst ` set acc" using Cons.prems(2) by auto
  have d: "distinct (map fst es)" using Cons.prems(1) by simp
  have disj: "fst ` set es \<inter> fst ` set (acc @ [(fst e, ?a)]) = {}"
    using Cons.prems by auto
  show ?case
    using Cons.IH[OF d disj, of "number_minus remaining ?a"] new by (simp add: Let_def jsmap_set_new)
qed

lemma riskAdjust_keys:
  "distinct (map fst acc) \<Longrightarrow>
   distinct (map fst (riskAdjust risks entries acc))
   \<and> fst ` set (riskAdjust risks entries acc) = fst ` set acc \<union> fst ` set entries"
proof (induction entries arbitrary: acc)
  case Nil
  then show ?case by simp
next
  case (Cons e entries)
  obtain k apr where e: "e = (k, apr)" by (cases e)
  let ?acc = "jsmap_set k (apr * (1 - or_else (jsmap_get risks k) 0 / 100)) acc"
  have "distinct (map fst ?acc)" using Cons.prems by (rule jsmap_set_distinct)
  from Cons.IH[OF this] show ?case by (simp add: e Let_def jsmap_set_key_set)
qed

lemma processing_order_keys:
  "distinct (map fst (processing_order md))
   \<and> fst ` set (processing_order md) = fst ` set (protocolAPRs md)"
  using riskAdjust_keys[of "[]" "protocolRisks md" "protocolAPRs md"]
  by (simp add: processing_order_def sortedProtocols_def distinct_map)

lemma optimizer_allocations:
  "targetAllocations (optimizeAllocation base current md)
     = clamped (riskTolerance current) (protocolRisks md) (processing_order md) (Some 100)"
  using allocate_clamped[of "processing_order md" "[]" "riskTolerance current" "protocolRisks md" "Some 100"]
    processing_order_keys[of md]
  by (simp add: optimizeAllocation_def calculateOptimalAllocations_def processing_order_def Let_def)

lemma rawAllocation_plain: "\<not> inherited_name (fst e) \<Longrightarrow> \<exists>x. rawAllocation tol risks e = Some x"
  by (simp add: rawAllocation_def getBaseAllocation_def inherited_name_def split: option.splits)

text \<open>
  Over names that objects do not inherit, the loop produces numbers only: each is the
  minimum of the raw allocation and of what the entries before it have left, and they
  add up to at most what there was to allocate.
\<close>

lemma clamped_plain:
  "\<forall>e \<in> set es. \<not> inherited_name (fst e) \<Longrightarrow>
   \<exists>allocs. clamped tol risks es (Some r) = as_numbers allocs
      \<and> length allocs = length es
      \<and> (\<forall>i < length es. fst (allocs ! i) = fst (es ! i)
             \<and> Some (snd (allocs ! i))
                 = math_min (rawAllocation tol risks (es ! i)) (Some (r - sum_list (map snd (take i allocs)))))
      \<and> (0 \<le> r \<longrightarrow> sum_list (map snd allocs) \<le> r)"
proof (induction es arbitrary: r)
  case Nil
  show ?case by (rule exI[of _ "[]"]) (simp add: as_numbers_def)
next
  case (Cons e es)
  obtain x where raw: "rawAllocation tol risks e = Some x"
    using rawAllocation_plain[of e tol risks] Cons.prems by auto
  let ?a = "min x r"
  have rest: "\<forall>e \<in> set es. \<not> inherited_name (fst e)" using Cons.prems by simp
  from Cons.IH[OF rest, of "r - ?a"] obtain allocs where
    cl: "clamped tol risks es (Some (r - ?a)) = as_numbers allocs"
    and len: "length allocs = length es"
    and nth: "\<forall>i < length es. fst (allocs ! i) = fst (es ! i)
             \<and> Some (snd (allocs ! i))
                 = math_min (rawAllocation tol risks (es ! i)) (Some (r - ?a - sum_list (map snd (take i allocs))))"
    and sum: "0 \<le> r - ?a \<longrightarrow> sum_list (map snd allocs) \<le> r - ?a"
    by blast
  let ?allocs = "(fst e, ?a) # allocs"
  have c1: "clamped tol risks (e # es) (Some r) = as_numbers ?allocs"
    using cl raw by (simp add: math_min_def number_minus_def as_numbers_def)
  have c2: "length ?allocs = length (e # es)" using len by simp
  have c3: "\<forall>i < length (e # es). fst (?allocs ! i) = fst ((e # es) ! i)
             \<and> Some (snd (?allocs ! i))
                 = math_min (rawAllocation tol risks ((e # es) ! i)) (Some (r - sum_list (map snd (take i ?allocs))))"
  proof (intro allI impI)
    fix i assume i: "i < length (e # es)"
    show "fst (?allocs ! i) = fst ((e # es) ! i)
             \<and> Some (snd (?allocs ! i))
                 = math_min (rawAllocation tol risks ((e # es) ! i)) (Some (r - sum_list (map snd (take i ?allocs))))"
    proof (cases i)
      case 0
      then show ?thesis using raw by (simp add: math_min_def)
    next
      case (Suc j)
      then have j: "j < length es" using i by simp
      have eq: "r - (?a + sum_list (map snd (take j allocs))) = r - ?a - sum_list (map snd (take j allocs))"
        by simp
      show ?thesis using nth j Suc by (simp add: eq)
    qed
  qed
  have c4: "0 \<le> r \<longrightarrow> sum_list (map snd ?allocs) \<le> r"
    using sum by auto
  show ?case using c1 c2 c3 c4 by blast
qed

lemma plain_processing_order:
  "plain_names md \<Longrightarrow> \<forall>e \<in> set (processing_order md). \<not> inherited_name (fst e)"
proof -
  assume p: "plain_names md"
  have k: "fst ` set (processing_order md) = fst ` set (protocolAPRs md)"
    using processing_order_keys[of md] by simp
  show ?thesis
  proof
    fix e assume "e \<in> set (processing_order md)"
    then have "fst e \<in> fst ` set (protocolAPRs md)" using k by auto
    then show "\<not> inherited_name (fst e)" using p by (auto simp: plain_names_def)
  qed
qed

text \<open>
  For a snapshot without inherited names the allocations are numbers that add up to at
  most 100.
\<close>

lemma plain_allocations_sum:
  assumes "plain_names md"
  shows "\<exists>allocs. targetAllocations (optimizeAllocation base current md) = as_numbers allocs
           \<and> sum_list (map snd allocs) \<le> 100"
  using clamped_plain[OF plain_processing_order[OF assms], of "riskTolerance current" "protocolRisks md" 100]
  unfolding optimizer_allocations by auto

lemmas optimizer_eval = optimizeAllocation_def calculateOptimalAllocations_def sortedProtocols_def
  default_strategy_def strategy_with_def rawAllocation_def getBaseAllocation_def baseAllocations_def
  objectPrototypeKeys_def getPerformanceMultiplier_def math_min_def number_minus_def
  calculateExpectedAPR_def jsmap_get_def or_else_def Let_def

text \<open>
  Claim C6. The target allocations of a generated strategy are to add up to at most 100,
  and the loop bounds every allocation by what remains of 100. The code misses this for
  a protocol named like an inherited property: for a snapshot with the yields 9 for
  \<^verbatim>\<open>constructor\<close> and 7 for Lido, the base allocation of \<^verbatim>\<open>constructor\<close> is not a number, so
  that its allocation and Lido's after it are \<^verbatim>\<open>NaN\<close>, and so are their sum and the
  expected APR.
\<close>

theorem inherited_name_allocations_nan:
  "targetAllocations (optimizeAllocation 50 default_strategy inherited_market)
     = [(''constructor'', None), (''lido'', None)]
   \<and> expectedAPR (optimizeAllocation 50 default_strategy inherited_market) = None
   \<and> getBaseAllocation ''constructor'' = None
   \<and> rawAllocation Moderate (protocolRisks inherited_market) (''lido'', 7) = Some 30"
  by (simp add: inherited_market_def optimizer_eval)

text \<open>
  Claim C1, amended. For a snapshot in which no protocol is named like an inherited
  property, the optimizer produces one allocation per protocol, in processing order, and
  each is the minimum of the raw allocation (base allocation times risk multiplier times
  performance multiplier) and of the percentage that the protocols before it have left
  unallocated. No cap of the protocol enters the computation.
\<close>

theorem allocation_clamped_to_remaining:
  assumes "plain_names md"
  shows "\<exists>allocs. targetAllocations (optimizeAllocation base current md) = as_numbers allocs
           \<and> length allocs = length (processing_order md)
           \<and> (\<forall>i < length (processing_order md).
                 fst (allocs ! i) = fst (processing_order md ! i)
                 \<and> Some (snd (allocs ! i))
                     = math_min (rawAllocation (riskTolerance current) (protocolRisks md) (processing_order md ! i))
                                (Some (100 - sum_list (map snd (take i allocs)))))"
  using clamped_plain[OF plain_processing_order[OF assms], of "riskTolerance current" "protocolRisks md" 100]
  unfolding optimizer_allocations by blast

lemma exp_4_lower: "(11::real) < exp 4"
proof -
  have "(2::real) \<le> exp 1" using exp_ge_add_one_self[of "1::real"] by simp
  then have "(2::real) ^ 4 \<le> exp 1 ^ 4" by (rule power_mono) simp
  also have "exp (1::real) ^ 4 = exp 4" by (simp add: exp_of_nat_mult[symmetric])
  finally show ?thesis by simp
qed

lemma tanh_2_bounds: "5 / 6 < tanh (2::real) \<and> tanh (2::real) < 1"
proof -
  have e: "exp (- 4::real) < 1 / 11"
    using exp_4_lower by (simp add: exp_minus field_simps)
  have p: "0 < exp (- 4::real)" by simp
  have "tanh (2::real) = (1 - exp (- 4)) / (1 + exp (- 4))" by (simp add: tanh_real_altdef)
  moreover have "5 / 6 < (1 - exp (- 4::real)) / (1 + exp (- 4))"
  proof -
    have d: "0 < 1 + exp (- 4::real)" by (rule add_pos_pos) simp_all
    have "5 / 6 * (1 + exp (- 4::real)) < 1 - exp (- 4)" using e by simp
    then show ?thesis using d by (simp add: pos_less_divide_eq)
  qed
  ultimately show ?thesis using tanh_real_lt_1[of 2] by simp
qed

lemma high_yield_allocation:
  "targetAllocations (optimizeAllocation 50 default_strategy high_yield_market)
     = [(''morpho'', Some (20 * (1 + tanh 2 * 0.3)))]"
proof -
  have "20 * (1 + tanh (2::real) * 0.3) \<le> 100" using tanh_2_bounds by simp
  then show ?thesis
    by (simp add: high_yield_market_def optimizer_eval min_def)
qed

text \<open>
  Claim C1 as stated fails: for Morpho, configured with a cap of 25, a snapshot with a
  yield of 17 makes the optimizer allocate 20 * (1 + 0.3 * tanh 2), which is more than 25.
\<close>

theorem cap_exceeded_counterexample:
  "targetAllocations (optimizeAllocation 50 default_strategy high_yield_market)
     = [(''morpho'', Some (20 * (1 + tanh 2 * 0.3)))]
   \<and> name morpho_protocol = ''morpho''
   \<and> maxAllocation morpho_protocol < 20 * (1 + tanh 2 * 0.3)"
  using tanh_2_bounds by (simp add: high_yield_allocation morpho_protocol_def)

theorem allocation_clamped_to_remaining_witness:
  "plain_names high_yield_market
   \<and> length (processing_order high_yield_market) = 1
   \<and> fst (targetAllocations (optimizeAllocation 50 default_strategy high_yield_market) ! 0) = ''morpho''
   \<and> snd (targetAllocations (optimizeAllocation 50 default_strategy high_yield_market) ! 0)
        = math_min (rawAllocation Moderate [(''morpho'', 0)] (''morpho'', 17)) (Some 100)"
proof -
  have pl: "plain_names high_yield_market"
    by (simp add: plain_names_def inherited_name_def objectPrototypeKeys_def high_yield_market_def)
  have po: "processing_order high_yield_market = [(''morpho'', 17)]"
    by (simp add: processing_order_def sortedProtocols_def high_yield_market_def jsmap_get_def or_else_def)
  have tol: "riskTolerance default_strategy = Moderate"
    and risks: "protocolRisks high_yield_market = [(''morpho'', 0)]"
    by (simp_all add: default_strategy_def strategy_with_def high_yield_market_def)
  from allocation_clamped_to_remaining[OF pl, of 50 default_strategy] obtain allocs where
    eq: "targetAllocations (optimizeAllocation 50 default_strategy high_yield_market) = as_numbers allocs"
    and len: "length allocs = length (processing_order high_yield_market)"
    and nth: "\<forall>i < length (processing_order high_yield_market).
                 fst (allocs ! i) = fst (processing_order high_yield_market ! i)
                 \<and> Some (snd (allocs ! i))
                     = math_min (rawAllocation (riskTolerance default_strategy) (protocolRisks high_yield_market)
                                   (processing_order high_yield_market ! i))
                                (Some (100 - sum_list (map snd (take i allocs))))"
    by blast
  have l1: "length allocs = 1" using len po by simp
  have n0: "fst (allocs ! 0) = ''morpho''
            \<and> Some (snd (allocs ! 0)) = math_min (rawAllocation Moderate [(''morpho'', 0)] (''morpho'', 17)) (Some 100)"
    using nth[THEN spec, of 0] by (simp add: po tol risks)
  have "as_numbers allocs ! 0 = (fst (allocs ! 0), Some (snd (allocs ! 0)))"
    using l1 by (simp add: as_numbers_def)
  then show ?thesis using pl po n0 by (simp add: eq)
qed

lemma jsmap_get_Cons: "jsmap_get ((k, v) # m) p = (if p = k then Some v else jsmap_get m p)"
  by (simp add: jsmap_get_def)

lemma riskAdjust_get:
  "distinct (map fst entries) \<Longrightarrow>
   jsmap_get (riskAdjust risks entries acc) p
     = (case jsmap_get entries p of
          Some apr \<Rightarrow> Some (apr * (1 - or_else (jsmap_get risks p) 0 / 100))
        | None \<Rightarrow> jsmap_get acc p)"
proof (induction entries arbitrary: acc)
  case Nil
  then show ?case by (simp add: jsmap_get_def)
next
  case (Cons e entries)
  obtain k apr where e: "e = (k, apr)" by (cases e)
  have d: "distinct (map fst entries)" and k: "k \<notin> fst ` set entries"
    using Cons.prems e by auto
  have none: "jsmap_get entries k = None" using k by (simp add: jsmap_get_def map_of_eq_None_iff)
  show ?case
    using Cons.IH[OF d, of "jsmap_set k (apr * (1 - or_else (jsmap_get risks k) 0 / 100)) acc"] none
    by (auto simp: e Let_def jsmap_get_set jsmap_get_Cons split: option.splits)
qed

lemma clamped_keys: "map fst (clamped tol risks es remaining) = map fst es"
  by (induction es arbitrary: remaining) simp_all

lemma allocation_entry_iff:
  "jsmap_get (targetAllocations (optimizeAllocation base current md)) p \<noteq> None
     \<longleftrightarrow> jsmap_get (protocolAPRs md) p \<noteq> None"
proof -
  have "fst ` set (targetAllocations (optimizeAllocation base current md)) = fst ` set (processing_order md)"
    unfolding optimizer_allocations using arg_cong[OF clamped_keys, of set] by simp
  then show ?thesis
    using processing_order_keys[of md] by (simp add: jsmap_get_def map_of_eq_None_iff)
qed

text \<open>
  Claim C2, amended. For a protocol that a snapshot lists in its yield map and not in
  its risk map, the optimizer computes the risk-adjusted return and the risk multiplier
  with a risk of 0, and the strategy it returns has an allocation for the protocol. A
  protocol without a yield entry is not processed: it gets no allocation.
\<close>

theorem missing_risk_defaults_to_zero:
  assumes "distinct (map fst (protocolAPRs md))"
    and "jsmap_get (protocolAPRs md) p = Some apr"
    and "jsmap_get (protocolRisks md) p = None"
  shows "jsmap_get (riskAdjust (protocolRisks md) (protocolAPRs md) []) p = Some (apr * (1 - 0 / 100))
       \<and> rawAllocation tol (protocolRisks md) (p, r)
            = map_option (\<lambda>baseAllocation. baseAllocation * getRiskMultiplier tol 0 * getPerformanceMultiplier r)
                (getBaseAllocation p)
       \<and> jsmap_get (targetAllocations (optimizeAllocation base current md)) p \<noteq> None
       \<and> (\<forall>q. jsmap_get (protocolAPRs md) q = None \<longrightarrow>
              jsmap_get (targetAllocations (optimizeAllocation base current md)) q = None)"
proof -
  have c1: "jsmap_get (riskAdjust (protocolRisks md) (protocolAPRs md) []) p = Some (apr * (1 - 0 / 100))"
    using assms by (simp add: riskAdjust_get or_else_def)
  have c2: "rawAllocation tol (protocolRisks md) (p, r)
            = map_option (\<lambda>baseAllocation. baseAllocation * getRiskMultiplier tol 0 * getPerformanceMultiplier r)
                (getBaseAllocation p)"
    using assms(3) by (simp add: rawAllocation_def or_else_def)
  have c3: "jsmap_get (targetAllocations (optimizeAllocation base current md)) p \<noteq> None"
    using assms(2) allocation_entry_iff[of base current md p] by simp
  have c4: "\<forall>q. jsmap_get (protocolAPRs md) q = None \<longrightarrow>
              jsmap_get (targetAllocations (optimizeAllocation base current md)) q = None"
    using allocation_entry_iff[of base current md] by blast
  show ?thesis using c1 c2 c3 c4 by blast
qed

text \<open>
  Claim C2 as stated fails: for Lido with a yield of 7 and no risk entry, the
  risk-adjusted return is 7 and the raw allocation 30, the values for risk 0; a risk of
  1 would give 6.93 and a risk multiplier of 0.99.
\<close>

theorem default_risk_counterexample:
  "jsmap_get (protocolAPRs partial_market) ''lido'' = Some 7
   \<and> jsmap_get (protocolRisks partial_market) ''lido'' = None
   \<and> riskAdjust (protocolRisks partial_market) (protocolAPRs partial_market) [] = [(''lido'', 7)]
   \<and> 7 * (1 - 1 / 100) = (6.93::real)
   \<and> rawAllocation Moderate (protocolRisks partial_market) (''lido'', 7) = Some 30
   \<and> getRiskMultiplier Moderate 1 = 0.99
   \<and> getBaseAllocation ''lido'' = Some 30
   \<and> 30 * getRiskMultiplier Moderate 1 * getPerformanceMultiplier 7 = 29.7
   \<and> targetAllocations (optimizeAllocation 50 default_strategy partial_market) = [(''lido'', Some 30)]"
  by (simp add: partial_market_def optimizer_eval)

theorem missing_risk_defaults_to_zero_witness:
  "distinct (map fst (protocolAPRs partial_market))
   \<and> jsmap_get (protocolAPRs partial_market) ''lido'' = Some 7
   \<and> jsmap_get (protocolRisks partial_market) ''lido'' = None
   \<and> jsmap_get (riskAdjust (protocolRisks partial_market) (protocolAPRs partial_market) []) ''lido'' = Some 7
   \<and> rawAllocation Moderate (protocolRisks partial_market) (''lido'', 7) = Some 30
   \<and> jsmap_get (targetAllocations (optimizeAllocation 50 default_strategy partial_market)) ''lido'' \<noteq> None
   \<and> jsmap_get (protocolAPRs partial_market) ''morpho'' = None
   \<and> jsmap_get (targetAllocations (optimizeAllocation 50 default_strategy partial_market)) ''morpho'' = None"
proof -
  have a: "distinct (map fst (protocolAPRs partial_market))"
    and b: "jsmap_get (protocolAPRs partial_market) ''lido'' = Some 7"
    and c: "jsmap_get (protocolRisks partial_market) ''lido'' = None"
    and d: "jsmap_get (protocolAPRs partial_market) ''morpho'' = None"
    by (simp_all add: partial_market_def jsmap_get_def)
  have m: "map_option (\<lambda>baseAllocation. baseAllocation * getRiskMultiplier Moderate 0 * getPerformanceMultiplier 7)
             (getBaseAllocation ''lido'') = Some 30"
    by (simp add: getBaseAllocation_def baseAllocations_def getPerformanceMultiplier_def jsmap_get_def or_else_def)
  show ?thesis
    using missing_risk_defaults_to_zero[OF a b c, of Moderate 7 50 default_strategy] a b c d m
    by simp
qed

end
